theory Spec2Isabelle
  imports Complex_Main
begin

section \<open>Numeric primitives\<close>

text \<open>
  JavaScript numbers are modelled as real numbers: rounding, overflow and signed zeros of
  IEEE doubles are left out. \<open>Math.sqrt\<close>, \<open>Math.cos\<close>, \<open>Math.sin\<close>,
  \<open>Math.exp\<close> are the real functions of the same name.

  \<open>THREE.MathUtils.lerp (x, y, t)\<close> is \<open>(1 - t) * x + t * y\<close> and
  \<open>THREE.MathUtils.damp (x, y, lambda, dt)\<close> is
  \<open>lerp (x, y, 1 - Math.exp (- lambda * dt))\<close> in the three.js library the
  components import.
\<close>

definition lerp :: "real \<Rightarrow> real \<Rightarrow> real \<Rightarrow> real" where
  "lerp x y t = (1 - t) * x + t * y"

definition damp :: "real \<Rightarrow> real \<Rightarrow> real \<Rightarrow> real \<Rightarrow> real" where
  "damp x y lambda dt = lerp x y (1 - exp (- lambda * dt))"

text \<open>
  \<open>Math.atan2 (y, x)\<close> on numbers that are not NaN: the angle of the point \<open>(x, y)\<close> in
  \<open>(-pi, pi]\<close>, and \<open>0\<close> at the origin.
\<close>

definition atan2 :: "real \<Rightarrow> real \<Rightarrow> real" where
  "atan2 y x =
     (if 0 < x then arctan (y / x)
      else if x < 0 then (if 0 \<le> y then arctan (y / x) + pi else arctan (y / x) - pi)
      else if 0 < y then pi / 2
      else if y < 0 then - (pi / 2)
      else 0)"

text \<open>\<open>Math.hypot (a, b)\<close>.\<close>

definition hypot :: "real \<Rightarrow> real \<Rightarrow> real" where
  "hypot a b = sqrt (a * a + b * b)"

section \<open>Morph clock\<close>

datatype mode = CHAOS | FORMED

text \<open>\<open>const targetProgress = state === 'FORMED' ? 1 : 0\<close>\<close>

definition targetProgress :: "mode \<Rightarrow> real" where
  "targetProgress state = (if state = FORMED then 1 else 0)"

text \<open>
  \<open>progress.current = THREE.MathUtils.damp (progress.current, targetProgress, 2.5, delta)\<close>,
  the same line in the tree system and in the ornaments.
\<close>

definition advance :: "real \<Rightarrow> mode \<Rightarrow> real \<Rightarrow> real" where
  "advance progress state delta = damp progress (targetProgress state) 2.5 delta"

text \<open>\<open>const ease = p * p * (3 - 2 * p)\<close>\<close>

definition ease :: "real \<Rightarrow> real" where
  "ease p = p * p * (3 - 2 * p)"

section \<open>Polar blend\<close>

type_synonym vec3 = "real \<times> real \<times> real"

datatype population = Foliage | Lights | Ornaments | Photos

text \<open>
  The factor of \<open>const vortexTwist = (1 - ease) * ...\<close> in each of the four loops:
  \<open>15.0\<close> for the foliage, \<open>12.0\<close> for the lights, \<open>12.0\<close> for the ornaments,
  \<open>10.0\<close> for the photos.
\<close>

fun vortexStrength :: "population \<Rightarrow> real" where
  "vortexStrength Foliage = 15.0"
| "vortexStrength Lights = 12.0"
| "vortexStrength Ornaments = 12.0"
| "vortexStrength Photos = 10.0"

text \<open>
  The factor of \<open>treeRotation.current * ...\<close> in the chaos-side azimuth of each loop.
\<close>

fun chaosCoRotation :: "population \<Rightarrow> real" where
  "chaosCoRotation Foliage = 0.5"
| "chaosCoRotation Lights = 0.3"
| "chaosCoRotation Ornaments = 0.15"
| "chaosCoRotation Photos = 0.2"

text \<open>
  The body of the foliage, light and photo loops of the tree system; the three differ only
  in the two constants, here \<open>vortex\<close> and \<open>coRotation\<close>.
\<close>

definition polar_blend :: "real \<Rightarrow> real \<Rightarrow> vec3 \<Rightarrow> vec3 \<Rightarrow> real \<Rightarrow> real \<Rightarrow> vec3" where
  "polar_blend vortex coRotation c t ease' treeRotation =
     (case c of (cx, cy, cz) \<Rightarrow> case t of (tx, ty, tz) \<Rightarrow>
        let y = lerp cy ty ease';
            tr = sqrt (tx * tx + tz * tz);
            tAngle = atan2 tz tx;
            cr = sqrt (cx * cx + cz * cz);
            r = lerp cr tr ease';
            vortexTwist = (1 - ease') * vortex;
            currentAngle = tAngle + vortexTwist + treeRotation;
            formedX = r * cos currentAngle;
            formedZ = r * sin currentAngle;
            cAngle = atan2 cz cx;
            cRotatedX = cr * cos (cAngle + treeRotation * coRotation);
            cRotatedZ = cr * sin (cAngle + treeRotation * coRotation)
        in (lerp cRotatedX formedX ease', y, lerp cRotatedZ formedZ ease'))"

definition foliage_position :: "vec3 \<Rightarrow> vec3 \<Rightarrow> real \<Rightarrow> real \<Rightarrow> vec3" where
  "foliage_position = polar_blend (vortexStrength Foliage) (chaosCoRotation Foliage)"

definition light_position :: "vec3 \<Rightarrow> vec3 \<Rightarrow> real \<Rightarrow> real \<Rightarrow> vec3" where
  "light_position = polar_blend (vortexStrength Lights) (chaosCoRotation Lights)"

definition photo_position :: "vec3 \<Rightarrow> vec3 \<Rightarrow> real \<Rightarrow> real \<Rightarrow> vec3" where
  "photo_position = polar_blend (vortexStrength Photos) (chaosCoRotation Photos)"

text \<open>
  The ornaments store the tree point in cylindrical form, \<open>treeCyl = {h, r, angle}\<close>, and
  blend against it directly.
\<close>

definition ornament_position :: "vec3 \<Rightarrow> real \<times> real \<times> real \<Rightarrow> real \<Rightarrow> real \<Rightarrow> vec3" where
  "ornament_position chaosPos treeCyl ease' treeRotation =
     (case chaosPos of (cx, cy, cz) \<Rightarrow> case treeCyl of (h, r, angle) \<Rightarrow>
        let cr = sqrt (cx * cx + cz * cz);
            cAngle = atan2 cz cx;
            y = lerp cy h ease';
            currentR = lerp cr r ease';
            vortexTwist = (1 - ease') * vortexStrength Ornaments;
            currentAngle = angle + vortexTwist + treeRotation;
            cRotatedX = cr * cos (cAngle + treeRotation * chaosCoRotation Ornaments);
            cRotatedZ = cr * sin (cAngle + treeRotation * chaosCoRotation Ornaments);
            tX = currentR * cos currentAngle;
            tZ = currentR * sin currentAngle
        in (lerp cRotatedX tX ease', y, lerp cRotatedZ tZ ease'))"

text \<open>
  The orientation written to a photo panel: \<open>rotation.x\<close>, \<open>rotation.y\<close>,
  \<open>rotation.z\<close>.
\<close>

definition photo_rotation :: "vec3 \<Rightarrow> vec3 \<Rightarrow> vec3 \<Rightarrow> real \<Rightarrow> real \<Rightarrow> vec3" where
  "photo_rotation t chaosRot treeRot ease' treeRotation =
     (case t of (tx, ty, tz) \<Rightarrow>
      case chaosRot of (crx, cry, crz) \<Rightarrow> case treeRot of (trx, try, trz) \<Rightarrow>
        let tAngle = atan2 tz tx;
            vortexTwist = (1 - ease') * vortexStrength Photos;
            currentAngle = tAngle + vortexTwist + treeRotation;
            lookAtAngle = - currentAngle + pi / 2
        in (lerp crx trx ease', lerp cry lookAtAngle ease', lerp crz trz ease'))"

text \<open>
  The cylindrical form of a point about the vertical axis, as the loops compute it
  (\<open>Math.sqrt (x * x + z * z)\<close>, \<open>Math.atan2 (z, x)\<close>), and the way back
  (\<open>r * Math.cos (a)\<close>, \<open>r * Math.sin (a)\<close>).
\<close>

definition height :: "vec3 \<Rightarrow> real" where
  "height p = (case p of (x, y, z) \<Rightarrow> y)"

definition radius :: "vec3 \<Rightarrow> real" where
  "radius p = (case p of (x, y, z) \<Rightarrow> sqrt (x * x + z * z))"

definition azimuth :: "vec3 \<Rightarrow> real" where
  "azimuth p = (case p of (x, y, z) \<Rightarrow> atan2 z x)"

definition cylindrical :: "real \<Rightarrow> real \<Rightarrow> real \<Rightarrow> vec3" where
  "cylindrical h r a = (r * cos a, h, r * sin a)"

section \<open>Photo selection\<close>

text \<open>
  The fields of \<open>ParticleData\<close> that the tree system reads for a photo.
\<close>

record particleData =
  chaosPos :: vec3
  treePos :: vec3
  chaosRot :: vec3
  treeRot :: vec3
  scale :: real
  image :: string

text \<open>The \<open>THREE.Group\<close> that a photo's \<open>ref\<close> points to once it is mounted.\<close>

record group3 =
  position :: vec3
  rotation :: vec3

text \<open>
  An element of \<open>photoObjects\<close>; \<open>ref = None\<close> stands for \<open>obj.ref.current\<close> being
  \<open>null\<close>.
\<close>

record photoObject =
  url :: string
  ref :: "group3 option"
  data :: particleData

text \<open>
  \<open>selectedPhotoUrl\<close> of the context (\<open>None\<close> is \<open>null\<close>) and
  \<open>photoOpenTimeRef.current\<close>, in milliseconds.
\<close>

record selection =
  selectedPhotoUrl :: "string option"
  photoOpenTime :: int

text \<open>The pointer, \<open>{x, y}\<close> in screen fractions.\<close>

type_synonym pointerCoords = "real \<times> real"

text \<open>
  JavaScript's truth test on a \<open>string | null\<close>: \<open>null\<close> and the empty string are
  falsy.
\<close>

definition truthy :: "string option \<Rightarrow> bool" where
  "truthy v = (case v of None \<Rightarrow> False | Some u \<Rightarrow> u \<noteq> [])"

definition SELECTION_THRESHOLD :: real where
  "SELECTION_THRESHOLD = 0.05"

text \<open>
  \<open>dist < minDistance\<close> of the loop, where \<open>minDistance\<close> starts as \<open>Infinity\<close>, here \<open>None\<close>.
\<close>

definition below :: "real \<Rightarrow> real option \<Rightarrow> bool" where
  "below dist' minDistance = (case minDistance of None \<Rightarrow> True | Some m \<Rightarrow> dist' < m)"

text \<open>
  The body of \<open>photoObjects.forEach\<close> in the click effect, on the pair
  \<open>(closestPhotoId, minDistance)\<close>. The scene graph and the camera are three.js objects:
  \<open>project\<close> stands for \<open>getWorldPosition\<close> followed by \<open>project (camera)\<close>, from a
  mounted group to its normalized device coordinates.
\<close>

definition visit :: "(group3 \<Rightarrow> vec3) \<Rightarrow> real \<Rightarrow> real \<Rightarrow> string option \<times> real option \<Rightarrow>
    photoObject \<Rightarrow> string option \<times> real option" where
  "visit project ndcX ndcY acc obj =
     (case ref obj of
        None \<Rightarrow> acc
      | Some g \<Rightarrow>
          (case project g of (sx, sy, sz) \<Rightarrow>
             if sz < 1 then
               let dist' = hypot (sx - ndcX) (sy - ndcY)
               in if dist' < SELECTION_THRESHOLD \<and> below dist' (snd acc)
                  then (Some (image (data obj)), Some dist')
                  else acc
             else acc))"

text \<open>The pointer in normalized device coordinates, then the loop over the photos.\<close>

definition closestPhoto :: "(group3 \<Rightarrow> vec3) \<Rightarrow> pointerCoords \<Rightarrow> photoObject list \<Rightarrow>
    string option" where
  "closestPhoto project pointer photoObjects =
     (case pointer of (px, py) \<Rightarrow>
        let ndcX = px * 2 - 1;
            ndcY = - (py * 2) + 1
        in fst (foldl (visit project ndcX ndcY) (None, None) photoObjects))"

text \<open>
  The effect that runs when \<open>clickTrigger\<close> changes. \<open>now\<close> is \<open>Date.now ()\<close>, read
  once for the whole run; \<open>setSelectedPhotoUrl\<close> is the update of the field.
\<close>

definition clickEffect :: "mode \<Rightarrow> pointerCoords option \<Rightarrow> (group3 \<Rightarrow> vec3) \<Rightarrow>
    photoObject list \<Rightarrow> int \<Rightarrow> selection \<Rightarrow> selection" where
  "clickEffect state pointer project photoObjects now s =
     (case pointer of
        None \<Rightarrow> s
      | Some p \<Rightarrow>
          if state = CHAOS then
            if truthy (selectedPhotoUrl s) \<and> now - photoOpenTime s < 3000 then s
            else
              let closestPhotoId = closestPhoto project p photoObjects
              in if truthy closestPhotoId then
                   if selectedPhotoUrl s = closestPhotoId then
                     if now - photoOpenTime s > 3000
                     then s\<lparr>selectedPhotoUrl := None\<rparr>
                     else s
                   else s\<lparr>selectedPhotoUrl := closestPhotoId, photoOpenTime := now\<rparr>
                 else if truthy (selectedPhotoUrl s) then
                   if now - photoOpenTime s > 3000
                   then s\<lparr>selectedPhotoUrl := None\<rparr>
                   else s
                 else s
          else s)"

text \<open>
  The panels the search compares: for each mounted photo in front of the camera
  (projected depth below \<open>1\<close>), its image and its distance to the pointer in
  normalized device coordinates.
\<close>

definition ndcDistance :: "(group3 \<Rightarrow> vec3) \<Rightarrow> pointerCoords \<Rightarrow> photoObject \<Rightarrow> real option" where
  "ndcDistance project pointer obj =
     (case ref obj of
        None \<Rightarrow> None
      | Some g \<Rightarrow>
          (case project g of (sx, sy, sz) \<Rightarrow> case pointer of (px, py) \<Rightarrow>
             if sz < 1
             then Some (hypot (sx - (px * 2 - 1)) (sy - (- (py * 2) + 1)))
             else None))"

text \<open>
  What the loop has found after a list of photos: nothing, when no panel is within the
  threshold, or a panel within the threshold that no other panel is closer than.
\<close>

definition nearest_result :: "(group3 \<Rightarrow> vec3) \<Rightarrow> pointerCoords \<Rightarrow> photoObject list \<Rightarrow>
    string option \<times> real option \<Rightarrow> bool" where
  "nearest_result project pointer objs R =
     ((R = (None, None) \<and>
       (\<forall>obj \<in> set objs. \<forall>d. ndcDistance project pointer obj = Some d \<longrightarrow>
          \<not> d < SELECTION_THRESHOLD)) \<or>
      (\<exists>obj \<in> set objs. \<exists>d. ndcDistance project pointer obj = Some d \<and>
          d < SELECTION_THRESHOLD \<and> R = (Some (image (data obj)), Some d) \<and>
          (\<forall>obj' \<in> set objs. \<forall>d'. ndcDistance project pointer obj' = Some d' \<longrightarrow> d \<le> d')))"

text \<open>
  A mounted photo with the image and tree point of the first generated photo, for
  running the click effect on.
\<close>

definition examplePhoto :: photoObject where
  "examplePhoto =
     \<lparr>url = ''/photos/2024_06_1.jpg'',
      ref = Some \<lparr>position = (0, 0, 0), rotation = (0, 0, 0)\<rparr>,
      data = \<lparr>chaosPos = (0, 0, 0), treePos = (4.3, -7, 0), chaosRot = (0, 0, 0),
               treeRot = (0, pi / 2, 0), scale = 1, image = ''/photos/2024_06_1.jpg''\<rparr>\<rparr>"

section \<open>Layout generation\<close>

text \<open>
  The typed arrays of the tree system. Each \<open>new Float32Array (n)\<close> of the generation
  is one of these buffers, \<open>n\<close> zeros at first; the rounding of a stored value to single
  precision is left out.
\<close>

datatype buffer = FoliageCurrent | FoliageChaos | FoliageTree | FoliageSizes | LightChaos | LightTree

type_synonym buffers = "buffer \<Rightarrow> real list"

definition particleCount :: nat where
  "particleCount = 4500"

definition lightCount :: nat where
  "lightCount = 300"

text \<open>
  \<open>for (let i = 0; i < n; i++) a[i] = sphere[i]\<close>, where \<open>sphere i\<close> stands for the
  element \<open>sphere[i]\<close> of the array that \<open>random.inSphere\<close> of the maath library
  returned.
\<close>

definition copyFrom :: "(nat \<Rightarrow> real) \<Rightarrow> nat \<Rightarrow> real list \<Rightarrow> real list" where
  "copyFrom sphere n a = foldl (\<lambda>a i. a[i := sphere i]) a [0..<n]"

text \<open>
  One turn of the loop that fills \<open>foliageTree\<close> and \<open>sizes\<close>. \<open>rnd k\<close> stands for the
  value of the \<open>k\<close>-th call of \<open>Math.random ()\<close> made by the loops of the component, three
  per particle here.
\<close>

definition foliageTreeStep :: "(nat \<Rightarrow> real) \<Rightarrow> real list \<times> real list \<Rightarrow> nat \<Rightarrow>
    real list \<times> real list" where
  "foliageTreeStep rnd acc i =
     (case acc of (foliageTree, sizes) \<Rightarrow>
        let i3 = i * 3;
            h = rnd (3 * i) * 14;
            coneRadius = (14 - h) * 0.45;
            angle = h * 3.0 + rnd (3 * i + 1) * pi * 2
        in (foliageTree[i3 := cos angle * coneRadius, i3 + 1 := h - 6,
                        i3 + 2 := sin angle * coneRadius],
            sizes[i := rnd (3 * i + 2) * 1.5 + 0.5]))"

text \<open>One turn of the loop that fills \<open>lightTree\<close>.\<close>

definition lightTreeStep :: "real list \<Rightarrow> nat \<Rightarrow> real list" where
  "lightTreeStep lightTree i =
     (let i3 = i * 3;
          t = real i / real lightCount;
          h = t * 13;
          coneRadius = (14 - h) * 0.48;
          angle = t * pi * 25
      in lightTree[i3 := cos angle * coneRadius, i3 + 1 := h - 6,
                   i3 + 2 := sin angle * coneRadius])"

text \<open>
  \<open>photoFiles\<close>, already in the order that \<open>photoFiles.sort ()\<close> gives.
\<close>

definition photoFiles :: "string list" where
  "photoFiles =
     [
      ''2024_06_1.jpg'', ''2024_07_1.jpg'', ''2024_07_2.jpg'',
      ''2024_09_1.jpg'', ''2024_09_2.jpg'', ''2024_09_3.jpg'',
      ''2024_09_4.jpg'', ''2024_09_5.jpg'', ''2024_09_6.jpg'',
      ''2024_10_1.jpg'', ''2024_11_1.jpg'', ''2024_12_1.jpg'',
      ''2024_12_2.jpg'', ''2024_12_3.jpg'', ''2025_01_1.jpg'',
      ''2025_01_2.jpg'', ''2025_01_3.jpg'', ''2025_01_4.jpg'',
      ''2025_01_5.jpg'', ''2025_01_6.jpg'', ''2025_01_7.jpg'',
      ''2025_02_1.jpg'', ''2025_05_1.jpg'', ''2025_06_1.jpg'',
      ''2025_06_2.jpg'', ''2025_06_3.jpg'', ''2025_09_1.jpg'',
      ''2025_10_1.jpg'', ''2025_10_2.jpg'', ''2025_11_1.jpg'',
      ''2025_11_2.jpg''
     ]"

text \<open>
  The element pushed to \<open>photos\<close> for index \<open>i\<close> and file name \<open>fileName\<close>, out of
  \<open>photoCount\<close>; \<open>id\<close>, \<open>type\<close>, \<open>year\<close>, \<open>month\<close> and \<open>color\<close> are not read by
  the frame update or the click effect and are left out. The five random values are,
  in the order of the calls: the radius, the three components of \<open>chaosRot\<close>, the scale.
\<close>

definition photoData :: "(nat \<Rightarrow> real) \<Rightarrow> nat \<Rightarrow> nat \<Rightarrow> string \<Rightarrow> particleData" where
  "photoData rnd photoCount i fileName =
     (let t = real i / (real photoCount - 1);
          h = t * 14 - 7;
          radius = (7 - (h + 7)) * 0.4 + 1.5;
          angle = t * pi * 10;
          treeX = cos angle * radius;
          treeY = h;
          treeZ = sin angle * radius;
          phi = arccos (1 - 2 * (real i + 0.5) / real photoCount);
          theta = pi * (1 + sqrt 5) * (real i + 0.5);
          r = 12 + rnd (3 * particleCount + 5 * i) * 4;
          chaosX = r * sin phi * cos theta;
          chaosY = r * sin phi * sin theta * 0.6;
          chaosZ = r * cos phi
      in \<lparr>chaosPos = (chaosX, chaosY, chaosZ),
          treePos = (treeX, treeY, treeZ),
          chaosRot = ((rnd (3 * particleCount + 5 * i + 1) - 0.5) * 0.2,
                      0 + (rnd (3 * particleCount + 5 * i + 2) - 0.5) * 0.2,
                      (rnd (3 * particleCount + 5 * i + 3) - 0.5) * 0.1),
          treeRot = (0, - angle + pi / 2, 0),
          scale = 0.9 + rnd (3 * particleCount + 5 * i + 4) * 0.3,
          image = ''/photos/'' @ fileName\<rparr>)"

definition photosData :: "(nat \<Rightarrow> real) \<Rightarrow> particleData list" where
  "photosData rnd =
     map (\<lambda>i. photoData rnd (length photoFiles) i (photoFiles ! i)) [0..<length photoFiles]"

text \<open>The buffers that the \<open>useMemo\<close> of the tree system returns.\<close>

definition generateBuffers :: "(nat \<Rightarrow> real) \<Rightarrow> (nat \<Rightarrow> real) \<Rightarrow> (nat \<Rightarrow> real) \<Rightarrow> buffers" where
  "generateBuffers sphere lSphere rnd =
     (let foliageChaos = copyFrom sphere (particleCount * 3) (replicate (particleCount * 3) 0);
          filled = foldl (foliageTreeStep rnd)
                     (replicate (particleCount * 3) 0, replicate particleCount 0)
                     [0..<particleCount];
          lightChaos = copyFrom lSphere (lightCount * 3) (replicate (lightCount * 3) 0);
          lightTree = foldl lightTreeStep (replicate (lightCount * 3) 0) [0..<lightCount]
      in (\<lambda>b. case b of
            FoliageCurrent \<Rightarrow> replicate (particleCount * 3) 0
          | FoliageChaos \<Rightarrow> foliageChaos
          | FoliageTree \<Rightarrow> fst filled
          | FoliageSizes \<Rightarrow> snd filled
          | LightChaos \<Rightarrow> lightChaos
          | LightTree \<Rightarrow> lightTree))"

text \<open>
  The ornaments: \<open>chaosPos\<close>, \<open>treeCyl\<close>, \<open>scale\<close> and \<open>rotationOffset\<close> of an item.
\<close>

record ornament =
  ornamentChaosPos :: vec3
  treeCyl :: "real \<times> real \<times> real"
  ornamentScale :: real
  rotationOffset :: real

definition ornamentCount :: nat where
  "ornamentCount = 40"

text \<open>
  The item pushed for index \<open>i\<close>. An item takes five random values: the radius, the
  type, the colour, the scale, the rotation offset.
\<close>

definition ornamentItem :: "(nat \<Rightarrow> real) \<Rightarrow> nat \<Rightarrow> ornament" where
  "ornamentItem rnd i =
     (let t = real i / real ornamentCount;
          h = t * 11 - 5.5;
          r = (6 - (h + 5.5)) * 0.5 + 0.5;
          angle = t * pi * 13;
          phi = arccos (1 - 2 * (real i + 0.5) / real ornamentCount);
          theta = pi * (1 + sqrt 5) * (real i + 0.5);
          radius = 12 + rnd (5 * i) * 8
      in \<lparr>ornamentChaosPos =
            (radius * sin phi * cos theta, radius * sin phi * sin theta * 0.7,
             radius * cos phi),
          treeCyl = (h, r, angle),
          ornamentScale = rnd (5 * i + 3) * 0.18 + 0.12,
          rotationOffset = rnd (5 * i + 4) * pi * 2\<rparr>)"

definition ornamentsData :: "(nat \<Rightarrow> real) \<Rightarrow> ornament list" where
  "ornamentsData rnd = map (ornamentItem rnd) [0..<ornamentCount]"

section \<open>Frame update of the tree system\<close>

text \<open>The trunk mesh: \<open>scale\<close>, \<open>position.y\<close>, \<open>rotation.y\<close>.\<close>

record trunk3 =
  trunkScale :: vec3
  trunkPositionY :: real
  trunkRotationY :: real

text \<open>
  The state that \<open>useFrame\<close> of the tree system reads and writes. A \<open>ref\<close> is \<open>None\<close>
  until its object is mounted. \<open>pointsRef = Some b\<close> says that the points are mounted and
  that \<open>b\<close> is the array of their \<open>position\<close> attribute; \<open>lightsRef\<close> holds, for each
  instance, the position and the uniform scale of its matrix; \<open>groupRef\<close> holds
  \<open>position.x\<close> and \<open>position.y\<close> of the group.
\<close>

record treeSystem =
  progress :: real
  treeRotation :: real
  currentPan :: "real \<times> real"
  buffers :: buffers
  pointsRef :: "buffer option"
  uTime :: real
  lightsRef :: "(vec3 \<times> real) list option"
  trunkRef :: "trunk3 option"
  groupRef :: "(real \<times> real) option"
  photoObjects :: "photoObject list"

text \<open>
  One turn of the foliage loop: the chaos and the tree point are read from their buffers
  and the blend is written to \<open>positions\<close>.
\<close>

definition foliageStep :: "buffer \<Rightarrow> real \<Rightarrow> real \<Rightarrow> buffers \<Rightarrow> nat \<Rightarrow> buffers" where
  "foliageStep positions ease' rot bufs i =
     (let i3 = i * 3;
          c = (bufs FoliageChaos ! i3, bufs FoliageChaos ! (i3 + 1), bufs FoliageChaos ! (i3 + 2));
          t = (bufs FoliageTree ! i3, bufs FoliageTree ! (i3 + 1), bufs FoliageTree ! (i3 + 2))
      in case foliage_position c t ease' rot of (x, y, z) \<Rightarrow>
           bufs(positions := (bufs positions)[i3 := x, i3 + 1 := y, i3 + 2 := z]))"

text \<open>
  \<open>for (let i = 0; i < len; i++)\<close> with \<open>len = positions.length / 3\<close>, a quotient of
  numbers: the loop makes as many turns as the quotient rounded up.
\<close>

definition updateFoliage :: "buffer \<Rightarrow> real \<Rightarrow> real \<Rightarrow> buffers \<Rightarrow> buffers" where
  "updateFoliage positions ease' rot bufs =
     foldl (foliageStep positions ease' rot) bufs [0..<(length (bufs positions) + 2) div 3]"

text \<open>One turn of the light loop: \<open>setMatrixAt (i, dummy.matrix)\<close>.\<close>

definition lightStep :: "buffers \<Rightarrow> real \<Rightarrow> real \<Rightarrow> real \<Rightarrow> (vec3 \<times> real) list \<Rightarrow> nat \<Rightarrow>
    (vec3 \<times> real) list" where
  "lightStep bufs ease' rot time instances i =
     (let i3 = i * 3;
          c = (bufs LightChaos ! i3, bufs LightChaos ! (i3 + 1), bufs LightChaos ! (i3 + 2));
          t = (bufs LightTree ! i3, bufs LightTree ! (i3 + 1), bufs LightTree ! (i3 + 2));
          blink = 0.8 + sin (time * 3 + real i * 0.5) * 0.2
      in instances[i := (light_position c t ease' rot, blink)])"

definition updateLights :: "buffers \<Rightarrow> real \<Rightarrow> real \<Rightarrow> real \<Rightarrow> (vec3 \<times> real) list \<Rightarrow>
    (vec3 \<times> real) list" where
  "updateLights bufs ease' rot time instances =
     foldl (lightStep bufs ease' rot time) instances [0..<lightCount]"

text \<open>\<open>THREE.MathUtils.smoothstep (x, min, max)\<close> of three.js, used for the trunk.\<close>

definition smoothstep :: "real \<Rightarrow> real \<Rightarrow> real \<Rightarrow> real" where
  "smoothstep x lo hi =
     (if x \<le> lo then 0 else if hi \<le> x then 1
      else let u = (x - lo) / (hi - lo) in u * u * (3 - 2 * u))"

text \<open>The body of the last \<open>photoObjects.forEach\<close>: position and rotation of a photo.\<close>

definition updatePhoto :: "real \<Rightarrow> real \<Rightarrow> photoObject \<Rightarrow> photoObject" where
  "updatePhoto ease' rot obj =
     (case ref obj of
        None \<Rightarrow> obj
      | Some g \<Rightarrow>
          obj\<lparr>ref := Some (g\<lparr>
            position := photo_position (chaosPos (data obj)) (treePos (data obj)) ease' rot,
            rotation := photo_rotation (treePos (data obj)) (chaosRot (data obj))
                          (treeRot (data obj)) ease' rot\<rparr>)\<rparr>)"

text \<open>
  The callback of \<open>useFrame\<close>, with the values it takes from the context and from the
  clock. The time uniforms of the photo materials are not part of the state.
\<close>

definition useFrame :: "mode \<Rightarrow> real \<Rightarrow> real \<Rightarrow> real \<times> real \<Rightarrow> real \<Rightarrow> real \<Rightarrow> treeSystem \<Rightarrow>
    treeSystem" where
  "useFrame state rotationSpeed rotationBoost panOffset time delta s =
     (let progress' = advance (progress s) state delta;
          ease' = ease progress';
          currentRotationSpeed = (if state = FORMED then rotationSpeed + rotationBoost else 0.08);
          rot = treeRotation s + currentRotationSpeed * delta;
          pan = (damp (fst (currentPan s)) (fst panOffset) 8 delta,
                 damp (snd (currentPan s)) (snd panOffset) 8 delta);
          bufs = (case pointsRef s of
                    None \<Rightarrow> buffers s
                  | Some positions \<Rightarrow> updateFoliage positions ease' rot (buffers s));
          trunkScale' = smoothstep ease' 0.3 1.0
      in s\<lparr>progress := progress',
           treeRotation := rot,
           currentPan := pan,
           groupRef := map_option (\<lambda>_. pan) (groupRef s),
           uTime := (if pointsRef s = None then uTime s else time),
           buffers := bufs,
           lightsRef := map_option (updateLights bufs ease' rot time) (lightsRef s),
           trunkRef := map_option (\<lambda>_. \<lparr>trunkScale = (trunkScale', ease', trunkScale'),
                                        trunkPositionY = 1, trunkRotationY = rot\<rparr>) (trunkRef s),
           photoObjects := map (updatePhoto ease' rot) (photoObjects s)\<rparr>)"

text \<open>
  The component when it is created: the clock at rest, the generated buffers, one photo
  object per element of \<open>photosData\<close>, nothing mounted.
\<close>

definition initialTree :: "(nat \<Rightarrow> real) \<Rightarrow> (nat \<Rightarrow> real) \<Rightarrow> (nat \<Rightarrow> real) \<Rightarrow> treeSystem" where
  "initialTree sphere lSphere rnd =
     \<lparr>progress = 0, treeRotation = 0, currentPan = (0, 0),
      buffers = generateBuffers sphere lSphere rnd,
      pointsRef = None, uTime = 0, lightsRef = None, trunkRef = None, groupRef = None,
      photoObjects = map (\<lambda>p. \<lparr>url = image p, ref = None, data = p\<rparr>) (photosData rnd)\<rparr>"

text \<open>
  Mounting, as the returned elements describe it: the position attribute of the points
  is \<open>array={foliageData.current}\<close>, the instanced mesh has \<open>lightsData.count\<close> instances,
  every photo group sets its \<open>ref\<close>.
\<close>

definition mountTree :: "treeSystem \<Rightarrow> treeSystem" where
  "mountTree s =
     s\<lparr>pointsRef := Some FoliageCurrent,
       lightsRef := Some (replicate lightCount ((0, 0, 0), 1)),
       trunkRef := Some \<lparr>trunkScale = (1, 1, 1), trunkPositionY = 0, trunkRotationY = 0\<rparr>,
       groupRef := Some (0, 0),
       photoObjects := map (\<lambda>obj. obj\<lparr>ref := Some \<lparr>position = (0, 0, 0), rotation = (0, 0, 0)\<rparr>\<rparr>)
                         (photoObjects s)\<rparr>"

text \<open>What happens to the component: it is mounted, or a frame is rendered.\<close>

datatype treeEvent = Mount | Frame mode real real "real \<times> real" real real

fun treeStep :: "treeSystem \<Rightarrow> treeEvent \<Rightarrow> treeSystem" where
  "treeStep s Mount = mountTree s"
| "treeStep s (Frame state rotationSpeed rotationBoost panOffset time delta) =
     useFrame state rotationSpeed rotationBoost panOffset time delta s"

definition runTree :: "treeEvent list \<Rightarrow> treeSystem \<Rightarrow> treeSystem" where
  "runTree events s = foldl treeStep s events"

section \<open>Frame update of the ornaments\<close>

text \<open>A child of the ornament group: \<open>name\<close>, \<open>position\<close>, \<open>rotation\<close>, uniform \<open>scale\<close>.\<close>

record child3 =
  childName :: string
  childPosition :: vec3
  childRotation :: vec3
  childScale :: real

record crystalOrnaments =
  ornamentProgress :: real
  ornamentRotation :: real
  ornamentPan :: "real \<times> real"
  ornaments :: "ornament list"
  ornamentGroup :: "((real \<times> real) \<times> child3 list) option"

text \<open>The body of \<open>groupRef.current.children.forEach ((child, i) => ...)\<close>.\<close>

definition updateChild :: "ornament list \<Rightarrow> real \<Rightarrow> real \<Rightarrow> real \<Rightarrow> real \<Rightarrow> nat \<times> child3 \<Rightarrow> child3" where
  "updateChild items ease' rot time delta ic =
     (case ic of (i, child) \<Rightarrow>
        if childName child = ''STAR'' then
          let starY = lerp 12 7.5 ease';
              pulse = 1.0 + sin (time * 2.5) * 0.15 + sin (time * 4) * 0.05
          in case childRotation child of (rx, ry, rz) \<Rightarrow>
               child\<lparr>childPosition := (0, starY, 0),
                     childRotation := (rx, ry + delta * 0.8, rz),
                     childScale := lerp 0 pulse ease'\<rparr>
        else if i < length items then
          let item = items ! i;
              rotSpeed = (1 - ease') * 1.5 + 0.3
          in case childRotation child of (rx, ry, rz) \<Rightarrow>
               child\<lparr>childPosition :=
                       ornament_position (ornamentChaosPos item) (treeCyl item) ease' rot,
                     childRotation := (time * rotSpeed + rotationOffset item,
                                       time * rotSpeed * 0.7 + rotationOffset item, rz)\<rparr>
        else child)"

definition ornamentFrame :: "mode \<Rightarrow> real \<Rightarrow> real \<times> real \<Rightarrow> real \<Rightarrow> real \<Rightarrow> crystalOrnaments \<Rightarrow>
    crystalOrnaments" where
  "ornamentFrame state rotationSpeed panOffset time delta s =
     (let p = advance (ornamentProgress s) state delta;
          ease' = ease p;
          spinFactor = (if state = FORMED then rotationSpeed else 0.06);
          rot = ornamentRotation s + spinFactor * delta;
          pan = (damp (fst (ornamentPan s)) (fst panOffset) 8 delta,
                 damp (snd (ornamentPan s)) (snd panOffset) 8 delta)
      in s\<lparr>ornamentProgress := p,
           ornamentRotation := rot,
           ornamentPan := pan,
           ornamentGroup :=
             map_option (\<lambda>(_, children).
                 (pan, map (updateChild (ornaments s) ease' rot time delta)
                         (zip [0..<length children] children)))
               (ornamentGroup s)\<rparr>)"

definition initialOrnaments :: "(nat \<Rightarrow> real) \<Rightarrow> crystalOrnaments" where
  "initialOrnaments rnd =
     \<lparr>ornamentProgress = 0, ornamentRotation = 0, ornamentPan = (0, 0),
      ornaments = ornamentsData rnd, ornamentGroup = None\<rparr>"

text \<open>
  Mounting: one mesh per ornament, then the group named \<open>STAR\<close> at \<open>[0, 7.5, 0]\<close>.
\<close>

definition mountOrnaments :: "crystalOrnaments \<Rightarrow> crystalOrnaments" where
  "mountOrnaments s =
     s\<lparr>ornamentGroup :=
         Some ((0, 0),
               map (\<lambda>item. \<lparr>childName = [], childPosition = (0, 0, 0),
                             childRotation = (0, 0, 0),
                             childScale = ornamentScale item * 0.8\<rparr>) (ornaments s) @
               [\<lparr>childName = ''STAR'', childPosition = (0, 7.5, 0), childRotation = (0, 0, 0),
                 childScale = 1\<rparr>])\<rparr>"

datatype ornamentEvent = MountOrnaments | OrnamentFrame mode real "real \<times> real" real real

fun ornamentStep :: "crystalOrnaments \<Rightarrow> ornamentEvent \<Rightarrow> crystalOrnaments" where
  "ornamentStep s MountOrnaments = mountOrnaments s"
| "ornamentStep s (OrnamentFrame state rotationSpeed panOffset time delta) =
     ornamentFrame state rotationSpeed panOffset time delta s"

definition runOrnaments :: "ornamentEvent list \<Rightarrow> crystalOrnaments \<Rightarrow> crystalOrnaments" where
  "runOrnaments events s = foldl ornamentStep s events"

text \<open>
  The layout data of the tree system: the chaos and tree buffers of the foliage and of
  the lights, and the data of the photos.
\<close>

definition layoutsOf :: "treeSystem \<Rightarrow> real list \<times> real list \<times> real list \<times> real list \<times> particleData list" where
  "layoutsOf s = (buffers s FoliageChaos, buffers s FoliageTree, buffers s LightChaos,
     buffers s LightTree, map data (photoObjects s))"

section \<open>Double arithmetic\<close>

text \<open>
  The definitions above read every operation as exact. JavaScript computes in IEEE 754
  binary64 and rounds each result to the nearest double, ties to the even mantissa.
  Here a finite double is the real number it denotes, and \<open>fl\<close> is that rounding:
  \<open>expo x\<close> is the binary exponent of \<open>x\<close>, not below \<open>-1022\<close> (the subnormal
  range shares the exponent of the smallest normal numbers), \<open>ulp x\<close> is the spacing
  \<open>2^(expo x - 52)\<close> of the doubles around \<open>x\<close>, and \<open>fl x\<close> is the nearest multiple of
  \<open>ulp x\<close>. A result of magnitude \<open>2^1024\<close> or more stands for an overflow.
\<close>

definition pow2 :: "int \<Rightarrow> real" where
  "pow2 e = (if 0 \<le> e then 2 ^ nat e else 1 / 2 ^ nat (- e))"

text \<open>Rounding to the nearest integer, a tie going to the even one.\<close>

definition rne :: "real \<Rightarrow> int" where
  "rne y =
     (let f = \<lfloor>y\<rfloor>; d = y - of_int f
      in if d < 1/2 then f else if 1/2 < d then f + 1 else if even f then f else f + 1)"

fun expo_up :: "nat \<Rightarrow> real \<Rightarrow> int" where
  "expo_up 0 x = 0"
| "expo_up (Suc n) x = (if 2 \<le> x then expo_up n (x / 2) + 1 else 0)"

fun expo_down :: "nat \<Rightarrow> real \<Rightarrow> int" where
  "expo_down 0 x = 0"
| "expo_down (Suc n) x = (if x < 1 then expo_down n (2 * x) - 1 else 0)"

definition expo :: "real \<Rightarrow> int" where
  "expo x = (if 1 \<le> \<bar>x\<bar> then expo_up 1024 \<bar>x\<bar> else expo_down 1022 \<bar>x\<bar>)"

definition ulp :: "real \<Rightarrow> real" where
  "ulp x = pow2 (expo x - 52)"

definition fl :: "real \<Rightarrow> real" where
  "fl x = of_int (rne (x / ulp x)) * ulp x"

text \<open>The operators \<open>*\<close>, \<open>-\<close> and \<open>+\<close> on doubles.\<close>

definition fmul :: "real \<Rightarrow> real \<Rightarrow> real" where
  "fmul x y = fl (x * y)"

definition fsub :: "real \<Rightarrow> real \<Rightarrow> real" where
  "fsub x y = fl (x - y)"

definition fadd :: "real \<Rightarrow> real \<Rightarrow> real" where
  "fadd x y = fl (x + y)"

text \<open>
  \<open>const ease = p * p * (3 - 2 * p)\<close> as JavaScript evaluates it: the product
  \<open>p * p\<close>, the product \<open>2 * p\<close>, the difference, the last product, each rounded.
\<close>

definition easeD :: "real \<Rightarrow> real" where
  "easeD p = fmul (fmul p p) (fsub 3 (fmul 2 p))"

text \<open>
  \<open>THREE.MathUtils.lerp (x, y, t)\<close>, that is \<open>(1 - t) * x + t * y\<close>, with its four
  roundings.
\<close>

definition lerpD :: "real \<Rightarrow> real \<Rightarrow> real \<Rightarrow> real" where
  "lerpD x y t = fadd (fmul (fsub 1 t) x) (fmul t y)"

text \<open>
  \<open>THREE.MathUtils.damp (x, y, lambda, dt)\<close>, that is
  \<open>lerp (x, y, 1 - Math.exp (- lambda * dt))\<close>. \<open>Math.exp\<close> is implementation-defined:
  \<open>expD\<close> stands for it, from a finite double to the double it returns.
\<close>

definition dampD :: "(real \<Rightarrow> real) \<Rightarrow> real \<Rightarrow> real \<Rightarrow> real \<Rightarrow> real \<Rightarrow> real" where
  "dampD expD x y lambda dt = lerpD x y (fsub 1 (expD (fmul (- lambda) dt)))"

text \<open>The progress line of both frame callbacks, and \<open>n\<close> frames of it.\<close>

definition advanceD :: "(real \<Rightarrow> real) \<Rightarrow> real \<Rightarrow> mode \<Rightarrow> real \<Rightarrow> real" where
  "advanceD expD p state delta = dampD expD p (targetProgress state) 2.5 delta"

fun ticksD :: "(real \<Rightarrow> real) \<Rightarrow> nat \<Rightarrow> real \<Rightarrow> mode \<Rightarrow> real \<Rightarrow> real" where
  "ticksD expD 0 p state delta = p"
| "ticksD expD (Suc n) p state delta = ticksD expD n (advanceD expD p state delta) state delta"

text \<open>The blend weight of a frame, \<open>1 - Math.exp (- 2.5 * delta)\<close>.\<close>

definition weightD :: "(real \<Rightarrow> real) \<Rightarrow> real \<Rightarrow> real" where
  "weightD expD delta = fsub 1 (expD (fmul (- 2.5) delta))"

section \<open>The ease function\<close>

lemma ease_diff:
  "ease q - ease p = (q - p) * (3 * (p + q) - 2 * (p * p + p * q + q * q))"
  by (simp add: ease_def algebra_simps)

lemma ease_slope_nonneg:
  fixes p q :: real
  assumes "0 \<le> p" "p \<le> 1" "0 \<le> q" "q \<le> 1"
  shows "0 \<le> 3 * (p + q) - 2 * (p * p + p * q + q * q)"
proof -
  have pp: "p * p \<le> p" using mult_left_mono [of p 1 p] assms by simp
  have qq: "q * q \<le> q" using mult_left_mono [of q 1 q] assms by simp
  have pq1: "p * q \<le> p" using mult_left_mono [of q 1 p] assms by simp
  have pq2: "p * q \<le> q" using mult_right_mono [of p 1 q] assms by simp
  from pp qq pq1 pq2 show ?thesis by (simp add: algebra_simps)
qed

text \<open>In exact arithmetic the polynomial is non-decreasing between \<open>0\<close> and \<open>1\<close>.\<close>

lemma ease_exact_mono:
  assumes "0 \<le> a" "a \<le> b" "b \<le> 1"
  shows "ease a \<le> ease b"
proof -
  have "0 \<le> 3 * (a + b) - 2 * (a * a + a * b + b * b)"
    using assms ease_slope_nonneg [of a b] by linarith
  then have "0 \<le> (b - a) * (3 * (a + b) - 2 * (a * a + a * b + b * b))"
    using assms by (simp add: mult_nonneg_nonneg)
  then show ?thesis using ease_diff [of b a] by linarith
qed

section \<open>Polar blend at the ends of the morph\<close>

lemma sqrt_sum_factor:
  fixes x z :: real
  assumes "x \<noteq> 0"
  shows "sqrt (x * x + z * z) = \<bar>x\<bar> * sqrt (1 + (z / x)\<^sup>2)"
proof -
  have "x * x + z * z = (x * x) * (1 + (z / x)\<^sup>2)"
    using assms by (simp add: power2_eq_square field_simps)
  then have "sqrt (x * x + z * z) = sqrt (x * x) * sqrt (1 + (z / x)\<^sup>2)"
    by (simp add: real_sqrt_mult)
  then show ?thesis by simp
qed

lemma polar_cos: "sqrt (x * x + z * z) * cos (atan2 z x) = x"
proof -
  have pos: "0 < sqrt (1 + (z / x)\<^sup>2)" by (simp add: add_pos_nonneg)
  consider "0 < x" | "x < 0" | "x = 0" by linarith
  then show ?thesis
  proof cases
    case 1
    then show ?thesis using pos by (simp add: atan2_def sqrt_sum_factor cos_arctan)
  next
    case 2
    then show ?thesis using pos by (simp add: atan2_def sqrt_sum_factor cos_arctan)
  next
    case 3
    then show ?thesis by (simp add: atan2_def)
  qed
qed

lemma polar_sin: "sqrt (x * x + z * z) * sin (atan2 z x) = z"
proof -
  have pos: "0 < sqrt (1 + (z / x)\<^sup>2)" by (simp add: add_pos_nonneg)
  consider "0 < x" | "x < 0" | "x = 0" by linarith
  then show ?thesis
  proof cases
    case 1
    then show ?thesis using pos by (simp add: atan2_def sqrt_sum_factor sin_arctan)
  next
    case 2
    then show ?thesis using pos by (simp add: atan2_def sqrt_sum_factor sin_arctan)
  next
    case 3
    then show ?thesis by (simp add: atan2_def)
  qed
qed

lemma polar_blend_formed:
  "polar_blend V K c t 1 rot = cylindrical (height t) (radius t) (azimuth t + rot)"
  by (cases c, cases t)
     (simp add: polar_blend_def lerp_def Let_def cylindrical_def height_def radius_def
        azimuth_def)

lemma polar_blend_dispersed:
  "polar_blend V K c t 0 rot = cylindrical (height c) (radius c) (azimuth c + rot * K)"
  by (cases c, cases t)
     (simp add: polar_blend_def lerp_def Let_def cylindrical_def height_def radius_def
        azimuth_def)

lemma cylindrical_rotates:
  "cylindrical (height (x, y, z)) (radius (x, y, z)) (azimuth (x, y, z) + rot) =
     (x * cos rot - z * sin rot, y, x * sin rot + z * cos rot)"
proof -
  let ?r = "sqrt (x * x + z * z)" and ?a = "atan2 z x"
  have "?r * cos (?a + rot) = (?r * cos ?a) * cos rot - (?r * sin ?a) * sin rot"
    by (simp add: cos_add algebra_simps)
  moreover have "?r * sin (?a + rot) = (?r * sin ?a) * cos rot + (?r * cos ?a) * sin rot"
    by (simp add: sin_add algebra_simps)
  ultimately show ?thesis
    by (simp add: cylindrical_def height_def radius_def azimuth_def polar_cos polar_sin)
qed

text \<open>
  C1. For every object, whatever its population's vortex strength and co-rotation factor,
  and for every accumulated rotation angle: at ease 1 the blend returns the tree-side
  target (height, radius and azimuth of the tree point, the azimuth advanced by the
  rotation angle, no vortex twist), and at ease 0 it returns the rotated chaos-side
  position (height and radius of the chaos point, its azimuth advanced by the rotation
  angle times the co-rotation factor), in which the tree point does not occur. The same
  holds for the ornaments, whose tree point is stored in cylindrical form.
\<close>

theorem polar_blend_endpoints:
  "polar_blend V K c t 1 rot = cylindrical (height t) (radius t) (azimuth t + rot) \<and>
   polar_blend V K c t 0 rot = cylindrical (height c) (radius c) (azimuth c + rot * K) \<and>
   foliage_position c t 1 rot = cylindrical (height t) (radius t) (azimuth t + rot) \<and>
   foliage_position c t 0 rot = cylindrical (height c) (radius c) (azimuth c + rot * 0.5) \<and>
   light_position c t 1 rot = cylindrical (height t) (radius t) (azimuth t + rot) \<and>
   light_position c t 0 rot = cylindrical (height c) (radius c) (azimuth c + rot * 0.3) \<and>
   photo_position c t 1 rot = cylindrical (height t) (radius t) (azimuth t + rot) \<and>
   photo_position c t 0 rot = cylindrical (height c) (radius c) (azimuth c + rot * 0.2) \<and>
   ornament_position c (h, r, angle) 1 rot = cylindrical h r (angle + rot) \<and>
   ornament_position c (h, r, angle) 0 rot =
     cylindrical (height c) (radius c) (azimuth c + rot * 0.15)"
proof -
  have "ornament_position c (h, r, angle) 1 rot = cylindrical h r (angle + rot)"
    by (cases c) (simp add: ornament_position_def lerp_def Let_def cylindrical_def)
  moreover have "ornament_position c (h, r, angle) 0 rot =
      cylindrical (height c) (radius c) (azimuth c + rot * 0.15)"
    by (cases c)
       (simp add: ornament_position_def lerp_def Let_def cylindrical_def height_def
          radius_def azimuth_def)
  ultimately show ?thesis
    by (simp add: foliage_position_def light_position_def photo_position_def
        polar_blend_formed polar_blend_dispersed)
qed

section \<open>A tree point blended with itself\<close>

text \<open>
  The first photo's tree point is \<open>(4.3, -7, 0)\<close>: \<open>t = 0\<close>, \<open>h = -7\<close>,
  \<open>radius = (7 - 0) * 0.4 + 1.5\<close>, \<open>angle = 0\<close>.
\<close>

lemma length_photoFiles: "length photoFiles = 31"
  by (simp add: photoFiles_def)

lemma first_photo_treePos:
  "treePos (hd (photosData rnd)) = (4.3, -7, 0)"
proof -
  have "hd (photosData rnd) = photoData rnd (length photoFiles) 0 (photoFiles ! 0)"
    by (simp add: photosData_def hd_map length_photoFiles)
  then show ?thesis by (simp add: photoData_def Let_def)
qed

text \<open>
  Blended with itself at ease 1 after half a turn, that point lands on the opposite side
  of the axis.
\<close>

theorem blend_fixed_point_counterexample:
  "photo_position (4.3, -7, 0) (4.3, -7, 0) 1 pi \<noteq> (4.3, -7, 0)"
  by (simp add: photo_position_def polar_blend_formed cylindrical_rotates)

text \<open>
  C6, amended. For every point \<open>p\<close> and every accumulated rotation angle, the blend with
  \<open>p\<close> as both the chaos and the tree input at ease 1 returns \<open>p\<close> turned about the
  vertical axis by the rotation angle; it reproduces \<open>p\<close> itself when the rotation angle
  is zero.
\<close>

theorem blend_same_point_rotates:
  "polar_blend V K (x, y, z) (x, y, z) 1 rot =
     (x * cos rot - z * sin rot, y, x * sin rot + z * cos rot) \<and>
   polar_blend V K (x, y, z) (x, y, z) 1 0 = (x, y, z)"
  using cylindrical_rotates [of x y z 0]
  by (simp add: polar_blend_formed cylindrical_rotates)

section \<open>Vortex strengths and co-rotation factors\<close>

text \<open>
  The four populations are not strictly ordered in both constants: the lights and the
  ornaments share the vortex strength \<open>12.0\<close>, and the ornaments' co-rotation factor
  \<open>0.15\<close> is below the photos' \<open>0.2\<close>.
\<close>

theorem population_order_counterexample:
  "\<not> (vortexStrength Foliage > vortexStrength Lights \<and>
      vortexStrength Lights > vortexStrength Ornaments \<and>
      vortexStrength Ornaments > vortexStrength Photos \<and>
      chaosCoRotation Foliage > chaosCoRotation Lights \<and>
      chaosCoRotation Lights > chaosCoRotation Ornaments \<and>
      chaosCoRotation Ornaments > chaosCoRotation Photos)"
  by simp

text \<open>
  C7, amended. The foliage has the largest vortex strength and the largest co-rotation
  factor. The lights and the ornaments have the same vortex strength, above that of the
  photos. The co-rotation factor of the lights is above that of the photos, which is
  above that of the ornaments: the ornaments, not the photos, co-rotate least.
\<close>

theorem population_order:
  "vortexStrength Foliage > vortexStrength Lights \<and>
   vortexStrength Lights = vortexStrength Ornaments \<and>
   vortexStrength Ornaments > vortexStrength Photos \<and>
   chaosCoRotation Foliage > chaosCoRotation Lights \<and>
   chaosCoRotation Lights > chaosCoRotation Photos \<and>
   chaosCoRotation Photos > chaosCoRotation Ornaments"
  by simp

section \<open>Points on the vertical axis\<close>

text \<open>
  C8. When the chaos point and the tree point both lie on the vertical axis
  (\<open>x = z = 0\<close>), the azimuth is \<open>atan2 0 0 = 0\<close> and, for every ease and every
  rotation angle, the blend is the point of the axis at the blended height: each output
  coordinate is a definite number.
\<close>

theorem blend_on_axis:
  "atan2 0 0 = 0 \<and>
   polar_blend V K (0, cy, 0) (0, ty, 0) e rot = (0, lerp cy ty e, 0) \<and>
   ornament_position (0, cy, 0) (h, 0, angle) e rot = (0, lerp cy h e, 0)"
  by (simp add: polar_blend_def ornament_position_def lerp_def Let_def atan2_def)

section \<open>The nearest-panel search\<close>

lemma visit_ndcDistance:
  assumes "ndcX = px * 2 - 1" "ndcY = - (py * 2) + 1"
  shows "visit project ndcX ndcY acc obj =
     (case ndcDistance project (px, py) obj of
        None \<Rightarrow> acc
      | Some d \<Rightarrow>
          if d < SELECTION_THRESHOLD \<and> below d (snd acc)
          then (Some (image (data obj)), Some d) else acc)"
  by (simp add: assms visit_def ndcDistance_def Let_def split: option.splits prod.splits)

lemma nearest_result_snoc_skip:
  assumes "nearest_result project pointer xs R"
    and "\<forall>d. ndcDistance project pointer x = Some d \<longrightarrow> \<not> d < SELECTION_THRESHOLD"
  shows "nearest_result project pointer (xs @ [x]) R"
proof -
  from assms(1) consider
    (empty) "R = (None, None)"
      "\<forall>obj \<in> set xs. \<forall>d. ndcDistance project pointer obj = Some d \<longrightarrow>
         \<not> d < SELECTION_THRESHOLD"
  | (found) obj m where "obj \<in> set xs" "ndcDistance project pointer obj = Some m"
      "m < SELECTION_THRESHOLD" "R = (Some (image (data obj)), Some m)"
      "\<forall>obj' \<in> set xs. \<forall>d'. ndcDistance project pointer obj' = Some d' \<longrightarrow> m \<le> d'"
    unfolding nearest_result_def by blast
  then show ?thesis
  proof cases
    case empty
    with assms(2) show ?thesis unfolding nearest_result_def by auto
  next
    case found
    have "m \<le> d'" if "ndcDistance project pointer x = Some d'" for d'
      using that assms(2) found(3) by force
    with found have "\<forall>obj' \<in> set (xs @ [x]). \<forall>d'.
        ndcDistance project pointer obj' = Some d' \<longrightarrow> m \<le> d'"
      by auto
    moreover have "obj \<in> set (xs @ [x])" using found(1) by simp
    ultimately show ?thesis unfolding nearest_result_def using found(2,3,4) by blast
  qed
qed

lemma nearest_result_snoc_keep:
  assumes "nearest_result project pointer xs (a, Some m)"
    and "ndcDistance project pointer x = Some d" and "\<not> d < m"
  shows "nearest_result project pointer (xs @ [x]) (a, Some m)"
proof -
  from assms(1) obtain obj where found: "obj \<in> set xs"
      "ndcDistance project pointer obj = Some m"
      "m < SELECTION_THRESHOLD" "a = Some (image (data obj))"
      "\<forall>obj' \<in> set xs. \<forall>d'. ndcDistance project pointer obj' = Some d' \<longrightarrow> m \<le> d'"
    unfolding nearest_result_def by auto
  have "\<forall>obj' \<in> set (xs @ [x]). \<forall>d'.
      ndcDistance project pointer obj' = Some d' \<longrightarrow> m \<le> d'"
    using found(5) assms(2,3) by auto
  moreover have "obj \<in> set (xs @ [x])" using found(1) by simp
  ultimately show ?thesis unfolding nearest_result_def using found(2,3,4) by blast
qed

lemma nearest_result_snoc_take:
  assumes "nearest_result project pointer xs (a, m)"
    and "ndcDistance project pointer x = Some d" and "d < SELECTION_THRESHOLD"
    and "below d m"
  shows "nearest_result project pointer (xs @ [x]) (Some (image (data x)), Some d)"
proof -
  have "d \<le> d'" if "obj' \<in> set xs" "ndcDistance project pointer obj' = Some d'" for obj' d'
  proof (cases m)
    case None
    with assms(1) that assms(3) show ?thesis unfolding nearest_result_def by force
  next
    case (Some k)
    with assms(1) that have "k \<le> d'" unfolding nearest_result_def by auto
    with Some assms(4) show ?thesis by (simp add: below_def)
  qed
  then have "\<forall>obj' \<in> set (xs @ [x]). \<forall>d'.
      ndcDistance project pointer obj' = Some d' \<longrightarrow> d \<le> d'"
    using assms(2) by auto
  moreover have "x \<in> set (xs @ [x])" by simp
  ultimately show ?thesis unfolding nearest_result_def using assms(2,3) by blast
qed

lemma foldl_visit_nearest:
  assumes ndc: "ndcX = px * 2 - 1" "ndcY = - (py * 2) + 1"
  shows "nearest_result project (px, py) objs
     (foldl (visit project ndcX ndcY) (None, None) objs)"
proof (induction objs rule: rev_induct)
  case Nil
  then show ?case by (simp add: nearest_result_def)
next
  case (snoc x xs)
  note step = visit_ndcDistance [OF ndc]
  obtain a m where R: "foldl (visit project ndcX ndcY) (None, None) xs = (a, m)"
    by (cases "foldl (visit project ndcX ndcY) (None, None) xs")
  with snoc have IH: "nearest_result project (px, py) xs (a, m)" by simp
  have eq: "foldl (visit project ndcX ndcY) (None, None) (xs @ [x]) =
      visit project ndcX ndcY (a, m) x"
    using R by simp
  have "nearest_result project (px, py) (xs @ [x]) (visit project ndcX ndcY (a, m) x)"
  proof (cases "ndcDistance project (px, py) x")
    case None
    with IH show ?thesis
      by (simp add: step nearest_result_snoc_skip)
  next
    case (Some d)
    show ?thesis
    proof (cases "d < SELECTION_THRESHOLD")
      case False
      with IH Some show ?thesis
        by (simp add: step nearest_result_snoc_skip)
    next
      case True
      show ?thesis
      proof (cases "below d m")
        case True
        with IH Some \<open>d < SELECTION_THRESHOLD\<close> show ?thesis
          by (simp add: step nearest_result_snoc_take)
      next
        case False
        then obtain k where "m = Some k" "\<not> d < k"
          by (auto simp: below_def split: option.splits)
        with IH Some False show ?thesis
          by (simp add: step nearest_result_snoc_keep)
      qed
    qed
  qed
  then show ?case by (simp only: eq)
qed

lemma closestPhoto_None:
  "closestPhoto project pointer objs = None \<longleftrightarrow>
     (\<forall>obj \<in> set objs. \<forall>d. ndcDistance project pointer obj = Some d \<longrightarrow>
        \<not> d < SELECTION_THRESHOLD)"
proof (cases pointer)
  case (Pair px py)
  show ?thesis
    using foldl_visit_nearest [OF refl refl, of project px py objs]
    unfolding Pair nearest_result_def closestPhoto_def
    by (auto simp: Let_def)
qed

lemma closestPhoto_Some:
  assumes "closestPhoto project pointer objs = Some u"
  shows "\<exists>obj \<in> set objs. \<exists>d. u = image (data obj) \<and>
           ndcDistance project pointer obj = Some d \<and> d < SELECTION_THRESHOLD \<and>
           (\<forall>obj' \<in> set objs. \<forall>d'. ndcDistance project pointer obj' = Some d' \<longrightarrow> d \<le> d')"
proof (cases pointer)
  case (Pair px py)
  show ?thesis
    using foldl_visit_nearest [OF refl refl, of project px py objs] assms
    unfolding Pair nearest_result_def closestPhoto_def
    by (auto simp: Let_def)
qed


lemma truthy_closestPhoto:
  assumes "\<forall>obj \<in> set objs. image (data obj) \<noteq> []"
  shows "truthy (closestPhoto project pointer objs) \<longleftrightarrow>
         closestPhoto project pointer objs \<noteq> None"
proof (cases "closestPhoto project pointer objs")
  case None
  then show ?thesis by (simp add: truthy_def)
next
  case (Some u)
  from closestPhoto_Some [OF Some] assms have "u \<noteq> []" by auto
  with Some show ?thesis by (simp add: truthy_def)
qed

section \<open>Clicks\<close>

text \<open>
  C4. With no active selection: in the formed mode a trigger changes nothing; in the
  dispersed mode, with the pointer present, the panels compared are the mounted photos
  whose projected depth is below \<open>1\<close>, by their distance to the pointer in normalized
  device coordinates. If none of them is closer than \<open>0.05\<close> the selection stays empty;
  otherwise a panel at the minimum distance, itself closer than \<open>0.05\<close>, becomes the
  active identity and the time of the trigger is recorded.
\<close>

theorem click_from_idle:
  assumes "selectedPhotoUrl s = None"
    and "\<forall>obj \<in> set objs. image (data obj) \<noteq> []"
  shows "clickEffect FORMED pointer project objs now s = s \<and>
    ((\<forall>obj \<in> set objs. \<forall>d. ndcDistance project p obj = Some d \<longrightarrow> \<not> d < 0.05) \<longrightarrow>
       clickEffect CHAOS (Some p) project objs now s = s) \<and>
    ((\<exists>obj \<in> set objs. \<exists>d. ndcDistance project p obj = Some d \<and> d < 0.05) \<longrightarrow>
       (\<exists>obj \<in> set objs. \<exists>d. ndcDistance project p obj = Some d \<and> d < 0.05 \<and>
          (\<forall>obj' \<in> set objs. \<forall>d'. ndcDistance project p obj' = Some d' \<longrightarrow> d \<le> d') \<and>
          clickEffect CHAOS (Some p) project objs now s =
            s\<lparr>selectedPhotoUrl := Some (image (data obj)), photoOpenTime := now\<rparr>))"
proof (intro conjI impI)
  show "clickEffect FORMED pointer project objs now s = s"
    by (simp add: clickEffect_def split: option.splits)
next
  assume "\<forall>obj \<in> set objs. \<forall>d. ndcDistance project p obj = Some d \<longrightarrow> \<not> d < 0.05"
  then have "closestPhoto project p objs = None"
    by (simp add: closestPhoto_None SELECTION_THRESHOLD_def)
  with assms(1) show "clickEffect CHAOS (Some p) project objs now s = s"
    by (simp add: clickEffect_def truthy_def)
next
  assume "\<exists>obj \<in> set objs. \<exists>d. ndcDistance project p obj = Some d \<and> d < 0.05"
  then have "closestPhoto project p objs \<noteq> None"
    by (simp add: closestPhoto_None SELECTION_THRESHOLD_def)
  then obtain u where u: "closestPhoto project p objs = Some u" by auto
  from closestPhoto_Some [OF u] obtain obj d where found: "obj \<in> set objs"
      "u = image (data obj)" "ndcDistance project p obj = Some d" "d < 0.05"
      "\<forall>obj' \<in> set objs. \<forall>d'. ndcDistance project p obj' = Some d' \<longrightarrow> d \<le> d'"
    by (auto simp: SELECTION_THRESHOLD_def)
  have "truthy (Some u)" using truthy_closestPhoto [OF assms(2), of project p] u by simp
  with assms(1) u have "clickEffect CHAOS (Some p) project objs now s =
      s\<lparr>selectedPhotoUrl := Some u, photoOpenTime := now\<rparr>"
    by (simp add: clickEffect_def truthy_def)
  with found show "\<exists>obj \<in> set objs. \<exists>d. ndcDistance project p obj = Some d \<and> d < 0.05 \<and>
          (\<forall>obj' \<in> set objs. \<forall>d'. ndcDistance project p obj' = Some d' \<longrightarrow> d \<le> d') \<and>
          clickEffect CHAOS (Some p) project objs now s =
            s\<lparr>selectedPhotoUrl := Some (image (data obj)), photoOpenTime := now\<rparr>"
    by blast
qed

theorem click_from_idle_witness:
  "clickEffect CHAOS (Some (1/2, 1/2)) (\<lambda>g. (0, 0, 0)) [examplePhoto] 5000
     \<lparr>selectedPhotoUrl = None, photoOpenTime = 0\<rparr> =
     \<lparr>selectedPhotoUrl = Some ''/photos/2024_06_1.jpg'', photoOpenTime = 5000\<rparr>"
  using click_from_idle [of "\<lparr>selectedPhotoUrl = None, photoOpenTime = 0\<rparr>" "[examplePhoto]"
      "Some (1/2, 1/2)" "\<lambda>g. (0, 0, 0)" 5000 "(1/2, 1/2)"]
  by (simp add: examplePhoto_def ndcDistance_def hypot_def)

text \<open>
  C10. Without a pointer a trigger leaves the selection and its timestamp as they are, in
  either mode and whatever the photos and the camera are.
\<close>

theorem click_without_pointer:
  "clickEffect state None project objs now s = s"
  by (simp add: clickEffect_def)

text \<open>
  With a selection active, a trigger that comes less than 3000 ms after the recorded time
  changes nothing, and one that comes more than 3000 ms after it clears the selection when
  the search finds the active photo or finds nothing, and switches to the photo found
  otherwise.
\<close>

lemma click_locked_or_expired:
  assumes "selectedPhotoUrl s = Some u" "u \<noteq> []"
    and "\<forall>obj \<in> set objs. image (data obj) \<noteq> []"
  shows "(now - photoOpenTime s < 3000 \<longrightarrow>
            clickEffect CHAOS (Some p) project objs now s = s) \<and>
         (3000 < now - photoOpenTime s \<longrightarrow>
            (closestPhoto project p objs = Some u \<longrightarrow>
               clickEffect CHAOS (Some p) project objs now s = s\<lparr>selectedPhotoUrl := None\<rparr>) \<and>
            (\<forall>v. closestPhoto project p objs = Some v \<and> v \<noteq> u \<longrightarrow>
               clickEffect CHAOS (Some p) project objs now s =
                 s\<lparr>selectedPhotoUrl := Some v, photoOpenTime := now\<rparr>) \<and>
            (closestPhoto project p objs = None \<longrightarrow>
               clickEffect CHAOS (Some p) project objs now s = s\<lparr>selectedPhotoUrl := None\<rparr>))"
  using assms truthy_closestPhoto [OF assms(3), of project p]
  by (auto simp: clickEffect_def truthy_def)

text \<open>
  C5, at the boundary. Exactly 3000 ms after the recorded time the lock test
  \<open>Date.now () - photoOpenTimeRef.current < 3000\<close> no longer holds, yet the tests
  \<open>> 3000\<close> that guard the two \<open>setSelectedPhotoUrl (null)\<close> do not hold either: a
  trigger on the active photo, or on empty space, leaves the selection active. One
  millisecond later the same trigger clears it.
\<close>

theorem click_at_lock_boundary:
  "clickEffect CHAOS (Some (1/2, 1/2)) (\<lambda>g. (0, 0, 0)) [examplePhoto] 4000
     \<lparr>selectedPhotoUrl = Some ''/photos/2024_06_1.jpg'', photoOpenTime = 1000\<rparr> =
     \<lparr>selectedPhotoUrl = Some ''/photos/2024_06_1.jpg'', photoOpenTime = 1000\<rparr> \<and>
   clickEffect CHAOS (Some (1/2, 1/2)) (\<lambda>g. (9/10, 9/10, 0)) [examplePhoto] 4000
     \<lparr>selectedPhotoUrl = Some ''/photos/2024_06_1.jpg'', photoOpenTime = 1000\<rparr> =
     \<lparr>selectedPhotoUrl = Some ''/photos/2024_06_1.jpg'', photoOpenTime = 1000\<rparr> \<and>
   clickEffect CHAOS (Some (1/2, 1/2)) (\<lambda>g. (0, 0, 0)) [examplePhoto] 4001
     \<lparr>selectedPhotoUrl = Some ''/photos/2024_06_1.jpg'', photoOpenTime = 1000\<rparr> =
     \<lparr>selectedPhotoUrl = None, photoOpenTime = 1000\<rparr>"
  by (simp add: clickEffect_def closestPhoto_def visit_def examplePhoto_def hypot_def
      SELECTION_THRESHOLD_def below_def truthy_def Let_def)


section \<open>Layouts\<close>

lemma length_copyFrom: "length (copyFrom sphere n a) = length a"
proof -
  have "length (foldl (\<lambda>a i. a[i := sphere i]) a is) = length a" for "is"
    by (induction "is" arbitrary: a) simp_all
  then show ?thesis by (simp add: copyFrom_def)
qed

lemma length_foliageTreeStep:
  "length (fst (foliageTreeStep rnd acc i)) = length (fst acc) \<and>
   length (snd (foliageTreeStep rnd acc i)) = length (snd acc)"
  by (cases acc) (simp add: foliageTreeStep_def Let_def)

lemma length_foldl_foliageTreeStep:
  "length (fst (foldl (foliageTreeStep rnd) acc is)) = length (fst acc) \<and>
   length (snd (foldl (foliageTreeStep rnd) acc is)) = length (snd acc)"
  by (induction "is" arbitrary: acc) (simp_all add: length_foliageTreeStep)

lemma length_foldl_lightTreeStep:
  "length (foldl lightTreeStep a is) = length a"
  by (induction "is" arbitrary: a) (simp_all add: lightTreeStep_def Let_def)

lemma length_generateBuffers:
  "length (generateBuffers sphere lSphere rnd FoliageChaos) = particleCount * 3"
  "length (generateBuffers sphere lSphere rnd FoliageTree) = particleCount * 3"
  "length (generateBuffers sphere lSphere rnd FoliageCurrent) = particleCount * 3"
  "length (generateBuffers sphere lSphere rnd LightChaos) = lightCount * 3"
  "length (generateBuffers sphere lSphere rnd LightTree) = lightCount * 3"
  by (simp_all add: generateBuffers_def Let_def length_copyFrom
      length_foldl_foliageTreeStep length_foldl_lightTreeStep)

lemma foliageStep_other:
  "b \<noteq> positions \<Longrightarrow> foliageStep positions e rot bufs i b = bufs b"
  by (simp add: foliageStep_def Let_def split: prod.splits)

lemma updateFoliage_other:
  assumes "b \<noteq> positions"
  shows "updateFoliage positions e rot bufs b = bufs b"
proof -
  have "foldl (foliageStep positions e rot) bufs is b = bufs b" for "is"
    by (induction "is" arbitrary: bufs) (simp_all add: foliageStep_other [OF assms])
  then show ?thesis by (simp add: updateFoliage_def)
qed

lemma data_updatePhoto: "data (updatePhoto e rot obj) = data obj"
  by (simp add: updatePhoto_def split: option.splits)

lemma treeStep_keeps:
  assumes "pointsRef s = None \<or> pointsRef s = Some FoliageCurrent"
  shows "(pointsRef (treeStep s ev) = None \<or> pointsRef (treeStep s ev) = Some FoliageCurrent) \<and>
         layoutsOf (treeStep s ev) = layoutsOf s"
proof (cases ev)
  case Mount
  then show ?thesis by (simp add: mountTree_def layoutsOf_def comp_def)
next
  case (Frame st rs rb pan time delta)
  from assms show ?thesis unfolding Frame
    by (auto simp: useFrame_def Let_def layoutsOf_def updateFoliage_other data_updatePhoto
        comp_def)
qed

lemma runTree_keeps:
  assumes "pointsRef s = None \<or> pointsRef s = Some FoliageCurrent"
  shows "layoutsOf (runTree events s) = layoutsOf s"
  using assms unfolding runTree_def
proof (induction events arbitrary: s)
  case Nil
  then show ?case by simp
next
  case (Cons ev events)
  from treeStep_keeps [OF Cons.prems, of ev] Cons.IH [of "treeStep s ev"]
  show ?case by simp
qed

lemma ornamentStep_keeps: "ornaments (ornamentStep s ev) = ornaments s"
  by (cases ev) (simp_all add: mountOrnaments_def ornamentFrame_def Let_def)

lemma runOrnaments_keeps: "ornaments (runOrnaments events s) = ornaments s"
  unfolding runOrnaments_def
  by (induction events arbitrary: s) (simp_all add: ornamentStep_keeps)

text \<open>
  C9. At creation the chaos and the tree layout of every population have the same
  length, the population's count: \<open>particleCount\<close> and \<open>lightCount\<close> points of three
  coordinates each in the buffers of the foliage and the lights, one point per photo file,
  \<open>ornamentCount\<close> ornaments. Whatever sequence of mounts and frames follows, with
  whatever inputs, both layouts of every population are what they were at creation.
\<close>

theorem layouts_fixed:
  fixes sphere lSphere rnd ornamentRnd events ornamentEvents
  defines "s0 \<equiv> initialTree sphere lSphere rnd"
    and "o0 \<equiv> initialOrnaments ornamentRnd"
  defines "s \<equiv> runTree events s0"
    and "os \<equiv> runOrnaments ornamentEvents o0"
  shows "length (buffers s0 FoliageChaos) = particleCount * 3 \<and>
         length (buffers s0 FoliageTree) = particleCount * 3 \<and>
         length (buffers s0 LightChaos) = lightCount * 3 \<and>
         length (buffers s0 LightTree) = lightCount * 3 \<and>
         length (map (chaosPos \<circ> data) (photoObjects s0)) = length photoFiles \<and>
         length (map (treePos \<circ> data) (photoObjects s0)) = length photoFiles \<and>
         length (map ornamentChaosPos (ornaments o0)) = ornamentCount \<and>
         length (map treeCyl (ornaments o0)) = ornamentCount \<and>
         buffers s FoliageChaos = buffers s0 FoliageChaos \<and>
         buffers s FoliageTree = buffers s0 FoliageTree \<and>
         buffers s LightChaos = buffers s0 LightChaos \<and>
         buffers s LightTree = buffers s0 LightTree \<and>
         map (chaosPos \<circ> data) (photoObjects s) = map (chaosPos \<circ> data) (photoObjects s0) \<and>
         map (treePos \<circ> data) (photoObjects s) = map (treePos \<circ> data) (photoObjects s0) \<and>
         map ornamentChaosPos (ornaments os) = map ornamentChaosPos (ornaments o0) \<and>
         map treeCyl (ornaments os) = map treeCyl (ornaments o0)"
proof -
  have "pointsRef s0 = None \<or> pointsRef s0 = Some FoliageCurrent"
    by (simp add: s0_def initialTree_def)
  then have "layoutsOf s = layoutsOf s0" unfolding s_def by (rule runTree_keeps)
  then have tree: "buffers s FoliageChaos = buffers s0 FoliageChaos"
      "buffers s FoliageTree = buffers s0 FoliageTree"
      "buffers s LightChaos = buffers s0 LightChaos"
      "buffers s LightTree = buffers s0 LightTree"
      "map data (photoObjects s) = map data (photoObjects s0)"
    by (simp_all add: layoutsOf_def)
  from tree(5) have photos:
      "map (chaosPos \<circ> data) (photoObjects s) = map (chaosPos \<circ> data) (photoObjects s0)"
      "map (treePos \<circ> data) (photoObjects s) = map (treePos \<circ> data) (photoObjects s0)"
    by (metis map_map)+
  have orn: "ornaments os = ornaments o0" unfolding os_def by (rule runOrnaments_keeps)
  have lens: "length (buffers s0 FoliageChaos) = particleCount * 3"
      "length (buffers s0 FoliageTree) = particleCount * 3"
      "length (buffers s0 LightChaos) = lightCount * 3"
      "length (buffers s0 LightTree) = lightCount * 3"
    by (simp_all add: s0_def initialTree_def length_generateBuffers)
  have plen: "length (photoObjects s0) = length photoFiles"
    by (simp add: s0_def initialTree_def photosData_def)
  have olen: "length (ornaments o0) = ornamentCount"
    by (simp add: o0_def initialOrnaments_def ornamentsData_def)
  from tree(1-4) photos orn lens plen olen show ?thesis by simp
qed


text \<open>
  The photos keep the images they were generated with, none of them the empty string.
\<close>

lemma photo_images_nonempty:
  "\<forall>obj \<in> set (photoObjects (runTree events (initialTree sphere lSphere rnd))).
     image (data obj) \<noteq> []"
proof -
  let ?s0 = "initialTree sphere lSphere rnd"
  have "pointsRef ?s0 = None \<or> pointsRef ?s0 = Some FoliageCurrent"
    by (simp add: initialTree_def)
  then have "layoutsOf (runTree events ?s0) = layoutsOf ?s0" by (rule runTree_keeps)
  then have "map data (photoObjects (runTree events ?s0)) = map data (photoObjects ?s0)"
    by (simp add: layoutsOf_def)
  then have "data ` set (photoObjects (runTree events ?s0)) = data ` set (photoObjects ?s0)"
    by (metis set_map)
  moreover have "\<forall>d \<in> data ` set (photoObjects ?s0). image d \<noteq> []"
    by (auto simp: initialTree_def photosData_def photoData_def Let_def)
  ultimately show ?thesis by blast
qed

section \<open>Rounding\<close>

declare expo_up.simps [simp del] expo_down.simps [simp del]

text \<open>Unfolding rules for evaluating \<open>expo\<close> at a given number.\<close>

lemma expo_up_unfold:
  "expo_up n x = (if n = 0 then 0 else if 2 \<le> x then expo_up (n - 1) (x / 2) + 1 else 0)"
  by (cases n) (simp_all add: expo_up.simps)

lemma expo_down_unfold:
  "expo_down n x = (if n = 0 then 0 else if x < 1 then expo_down (n - 1) (2 * x) - 1 else 0)"
  by (cases n) (simp_all add: expo_down.simps)

lemmas fl_eval = fmul_def fsub_def fadd_def fl_def ulp_def expo_def rne_def pow2_def
  expo_up_unfold expo_down_unfold

lemma pow2_powr: "pow2 e = 2 powr (real_of_int e)"
proof (cases "0 \<le> e")
  case True
  then have "real_of_int e = real (nat e)" by simp
  then have "2 powr (real_of_int e) = (2::real) ^ nat e"
    by (simp only: powr_realpow [of 2 "nat e", simplified])
  with True show ?thesis by (simp add: pow2_def)
next
  case False
  then have "real_of_int e = - real (nat (- e))" by simp
  then have "2 powr (real_of_int e) = 1 / (2::real) ^ nat (- e)"
    by (simp only: powr_minus_divide powr_realpow [of 2 "nat (- e)", simplified])
  with False show ?thesis by (simp add: pow2_def)
qed

lemma pow2_pos [simp]: "0 < pow2 e"
  by (simp add: pow2_powr)

lemma pow2_nonzero [simp]: "pow2 e \<noteq> 0"
  using pow2_pos [of e] by linarith

lemma pow2_nonneg [simp]: "0 \<le> pow2 e"
  using pow2_pos [of e] by linarith

lemma abs_pow2 [simp]: "\<bar>pow2 e\<bar> = pow2 e"
  using pow2_pos [of e] by linarith

lemma pow2_add: "pow2 (a + b) = pow2 a * pow2 b"
  by (simp add: pow2_powr powr_add)

lemma pow2_mono: "a \<le> b \<Longrightarrow> pow2 a \<le> pow2 b"
  by (simp add: pow2_powr)

lemma pow2_strict_mono: "a < b \<Longrightarrow> pow2 a < pow2 b"
  by (simp add: pow2_powr)

lemma pow2_Suc: "pow2 (e + 1) = 2 * pow2 e"
  by (simp add: pow2_powr powr_add)

lemma pow2_0 [simp]: "pow2 0 = 1"
  by (simp add: pow2_def)

lemma pow2_pred: "pow2 (e - 1) = pow2 e / 2"
  using pow2_Suc [of "e - 1"] by simp

lemma rne_error: "\<bar>real_of_int (rne y) - y\<bar> \<le> 1 / 2"
proof -
  have f: "real_of_int \<lfloor>y\<rfloor> \<le> y" "y < real_of_int \<lfloor>y\<rfloor> + 1" by linarith+
  consider "y - real_of_int \<lfloor>y\<rfloor> < 1 / 2" | "1 / 2 < y - real_of_int \<lfloor>y\<rfloor>"
    | "y - real_of_int \<lfloor>y\<rfloor> = 1 / 2" by linarith
  then show ?thesis
  proof cases
    case 1
    then have "rne y = \<lfloor>y\<rfloor>" by (simp add: rne_def Let_def)
    with 1 f show ?thesis by simp
  next
    case 2
    then have "rne y = \<lfloor>y\<rfloor> + 1" by (simp add: rne_def Let_def)
    with 2 f show ?thesis by simp
  next
    case 3
    then have "rne y = \<lfloor>y\<rfloor> \<or> rne y = \<lfloor>y\<rfloor> + 1" by (simp add: rne_def Let_def)
    with 3 show ?thesis by auto
  qed
qed

lemma rne_of_int [simp]: "rne (real_of_int n) = n"
  by (simp add: rne_def)

lemma rne_le: "y \<le> real_of_int n \<Longrightarrow> rne y \<le> n"
proof -
  assume a: "y \<le> real_of_int n"
  show ?thesis
  proof (cases "y = real_of_int n")
    case True
    then show ?thesis by simp
  next
    case False
    with a have "y < real_of_int n" by simp
    then have "\<lfloor>y\<rfloor> < n" by linarith
    then show ?thesis unfolding rne_def Let_def by auto
  qed
qed

lemma rne_ge: "real_of_int n \<le> y \<Longrightarrow> n \<le> rne y"
proof -
  assume "real_of_int n \<le> y"
  then have "n \<le> \<lfloor>y\<rfloor>" by linarith
  then show ?thesis unfolding rne_def Let_def by auto
qed

lemma expo_up_bounds:
  "1 \<le> x \<Longrightarrow> 0 \<le> expo_up n x \<and> expo_up n x \<le> int n \<and> pow2 (expo_up n x) \<le> x \<and>
     (expo_up n x < int n \<longrightarrow> x < pow2 (expo_up n x + 1))"
proof (induction n arbitrary: x)
  case 0
  then show ?case by (simp add: pow2_def expo_up.simps)
next
  case (Suc n)
  show ?case
  proof (cases "2 \<le> x")
    case True
    then have "1 \<le> x / 2" by simp
    from Suc.IH [OF this]
    have IH: "0 \<le> expo_up n (x / 2)" "expo_up n (x / 2) \<le> int n"
      "pow2 (expo_up n (x / 2)) \<le> x / 2"
      "expo_up n (x / 2) < int n \<longrightarrow> x / 2 < pow2 (expo_up n (x / 2) + 1)"
      by simp_all
    have e: "expo_up (Suc n) x = expo_up n (x / 2) + 1" using True by (simp add: expo_up.simps)
    have "pow2 (expo_up n (x / 2) + 1) \<le> x" using IH(3) by (simp add: pow2_Suc)
    moreover have "expo_up n (x / 2) + 1 < int (Suc n) \<longrightarrow>
        x < pow2 (expo_up n (x / 2) + 1 + 1)"
      using IH(4) pow2_Suc [of "expo_up n (x / 2) + 1"] pow2_Suc [of "expo_up n (x / 2)"]
      by auto
    ultimately show ?thesis unfolding e using IH(1,2) by simp
  next
    case False
    with Suc.prems show ?thesis by (simp add: pow2_def expo_up.simps)
  qed
qed

lemma expo_down_bounds:
  "0 \<le> x \<Longrightarrow> x < 1 \<Longrightarrow> 0 < n \<Longrightarrow>
     - int n \<le> expo_down n x \<and> expo_down n x \<le> - 1 \<and> x < pow2 (expo_down n x + 1) \<and>
     (- int n < expo_down n x \<longrightarrow> pow2 (expo_down n x) \<le> x)"
proof (induction n arbitrary: x)
  case 0
  then show ?case by simp
next
  case (Suc n)
  show ?case
  proof (cases "2 * x < 1")
    case True
    show ?thesis
    proof (cases "n = 0")
      case True
      with Suc.prems show ?thesis by (simp add: pow2_def expo_down.simps)
    next
      case False
      then have "0 < n" by simp
      from Suc.IH [OF _ \<open>2 * x < 1\<close> this] Suc.prems
      have IH: "- int n \<le> expo_down n (2 * x)" "expo_down n (2 * x) \<le> - 1"
        "2 * x < pow2 (expo_down n (2 * x) + 1)"
        "- int n < expo_down n (2 * x) \<longrightarrow> pow2 (expo_down n (2 * x)) \<le> 2 * x"
        by simp_all
      have e: "expo_down (Suc n) x = expo_down n (2 * x) - 1"
        using Suc.prems by (simp add: expo_down.simps)
      have "x < pow2 (expo_down n (2 * x) - 1 + 1)" using IH(3) by (simp add: pow2_Suc)
      moreover have "- int (Suc n) < expo_down n (2 * x) - 1 \<longrightarrow>
          pow2 (expo_down n (2 * x) - 1) \<le> x"
        using IH(4) pow2_pred [of "expo_down n (2 * x)"] by auto
      ultimately show ?thesis unfolding e using IH(1,2) by simp
    qed
  next
    case False
    then have "expo_down n (2 * x) = 0" by (cases n) (simp_all add: expo_down.simps)
    with Suc.prems False show ?thesis by (simp add: pow2_def expo_down.simps)
  qed
qed

lemma expo_range: "- 1022 \<le> expo x \<and> expo x \<le> 1024"
proof (cases "1 \<le> \<bar>x\<bar>")
  case True
  from expo_up_bounds [OF this, of 1024] show ?thesis by (simp add: expo_def True)
next
  case False
  then have "\<bar>x\<bar> < 1" by simp
  from expo_down_bounds [OF _ this, of 1022] False show ?thesis by (simp add: expo_def)
qed

lemma expo_upper: "expo x < 1024 \<Longrightarrow> \<bar>x\<bar> < pow2 (expo x + 1)"
proof (cases "1 \<le> \<bar>x\<bar>")
  case True
  assume "expo x < 1024"
  with expo_up_bounds [OF True, of 1024] show ?thesis by (simp add: expo_def True)
next
  case False
  then have "\<bar>x\<bar> < 1" by simp
  from expo_down_bounds [OF _ this, of 1022] False show ?thesis by (simp add: expo_def)
qed

lemma expo_lower: "- 1022 < expo x \<Longrightarrow> pow2 (expo x) \<le> \<bar>x\<bar>"
proof (cases "1 \<le> \<bar>x\<bar>")
  case True
  from expo_up_bounds [OF True, of 1024] show ?thesis by (simp add: expo_def True)
next
  case False
  assume "- 1022 < expo x"
  moreover from False have "\<bar>x\<bar> < 1" by simp
  from expo_down_bounds [OF _ this, of 1022] False
  have "- 1022 < expo_down 1022 \<bar>x\<bar> \<longrightarrow> pow2 (expo_down 1022 \<bar>x\<bar>) \<le> \<bar>x\<bar>" by simp
  ultimately show ?thesis using False by (simp add: expo_def)
qed

lemma expo_less: 
  assumes "\<bar>x\<bar> < pow2 k" "- 1021 \<le> k"
  shows "expo x \<le> k - 1"
proof (rule ccontr)
  assume "\<not> expo x \<le> k - 1"
  then have ge: "k \<le> expo x" by simp
  with assms(2) have "- 1022 < expo x" by simp
  from expo_lower [OF this] have "pow2 (expo x) \<le> \<bar>x\<bar>" .
  moreover have "pow2 k \<le> pow2 (expo x)" using ge by (rule pow2_mono)
  ultimately show False using assms(1) by simp
qed

lemma ulp_pos [simp]: "0 < ulp x"
  by (simp add: ulp_def)

lemma ulp_nonzero [simp]: "ulp x \<noteq> 0"
  using ulp_pos [of x] by linarith

lemma ulp_nonneg [simp]: "0 \<le> ulp x"
  using ulp_pos [of x] by linarith

lemma abs_ulp [simp]: "\<bar>ulp x\<bar> = ulp x"
  by simp

lemma fl_half_ulp: "\<bar>fl x - x\<bar> \<le> ulp x / 2"
proof -
  have "fl x - x = (real_of_int (rne (x / ulp x)) - x / ulp x) * ulp x"
    by (simp add: fl_def algebra_simps)
  then have "\<bar>fl x - x\<bar> = \<bar>real_of_int (rne (x / ulp x)) - x / ulp x\<bar> * ulp x"
    by (simp add: abs_mult)
  also have "\<dots> \<le> (1 / 2) * ulp x"
    by (intro mult_right_mono rne_error) simp
  finally show ?thesis by simp
qed

lemma fl_error:
  assumes "\<bar>x\<bar> < pow2 k" "- 1021 \<le> k"
  shows "\<bar>fl x - x\<bar> \<le> pow2 (k - 54)"
proof -
  from expo_less [OF assms] have "expo x - 52 \<le> k - 53" by simp
  then have "ulp x \<le> pow2 (k - 53)" unfolding ulp_def by (rule pow2_mono)
  moreover have "pow2 (k - 53) / 2 = pow2 (k - 54)"
    using pow2_pred [of "k - 53"] by simp
  ultimately show ?thesis using fl_half_ulp [of x] by linarith
qed

lemma fl_nonneg: "0 \<le> x \<Longrightarrow> 0 \<le> fl x"
proof -
  assume "0 \<le> x"
  then have "real_of_int 0 \<le> x / ulp x" by (simp add: divide_nonneg_pos)
  then have "0 \<le> rne (x / ulp x)" by (rule rne_ge)
  then have "0 \<le> real_of_int (rne (x / ulp x))" by simp
  then show ?thesis unfolding fl_def by (rule mult_nonneg_nonneg) simp
qed

lemma fl_nonpos: "x \<le> 0 \<Longrightarrow> fl x \<le> 0"
proof -
  assume "x \<le> 0"
  then have "x / ulp x \<le> real_of_int 0" by (simp add: divide_nonpos_pos)
  then have "rne (x / ulp x) \<le> 0" by (rule rne_le)
  then have "real_of_int (rne (x / ulp x)) \<le> 0" by simp
  then show ?thesis unfolding fl_def by (rule mult_nonpos_nonneg) simp
qed

lemma fl_zero [simp]: "fl 0 = 0"
  using fl_nonneg [of 0] fl_nonpos [of 0] by simp


lemma pow2_split53: "pow2 (e + 1) = 2 ^ 53 * pow2 (e - 52)"
proof -
  have "pow2 (53 + (e - 52)) = pow2 53 * pow2 (e - 52)" by (rule pow2_add)
  moreover have "53 + (e - 52) = e + 1" by simp
  moreover have "pow2 53 = 2 ^ 53" by (simp add: pow2_def)
  ultimately show ?thesis by (simp only:)
qed

lemma pow2_split52: "pow2 e = 2 ^ 52 * pow2 (e - 52)"
proof -
  have "pow2 (52 + (e - 52)) = pow2 52 * pow2 (e - 52)" by (rule pow2_add)
  moreover have "52 + (e - 52) = e" by simp
  moreover have "pow2 52 = 2 ^ 52" by (simp add: pow2_def)
  ultimately show ?thesis by (simp only:)
qed

lemma expo_unique:
  assumes "pow2 e \<le> \<bar>x\<bar>" "\<bar>x\<bar> < pow2 (e + 1)" "- 1022 \<le> e" "e \<le> 1023"
  shows "expo x = e"
proof -
  have "expo x \<le> e" using expo_less [OF assms(2)] assms(3) by simp
  moreover have "e \<le> expo x"
  proof (rule ccontr)
    assume "\<not> e \<le> expo x"
    then have lt: "expo x + 1 \<le> e" by simp
    then have "expo x < 1024" using assms(4) by simp
    from expo_upper [OF this] have "\<bar>x\<bar> < pow2 (expo x + 1)" .
    moreover have "pow2 (expo x + 1) \<le> pow2 e" using lt by (rule pow2_mono)
    ultimately show False using assms(1) by simp
  qed
  ultimately show ?thesis by simp
qed

lemma expo_subnormal:
  assumes "\<bar>x\<bar> < pow2 (- 1021)"
  shows "expo x = - 1022"
  using expo_less [OF assms] expo_range [of x] by simp

text \<open>A number that lies on the grid of its own binade is not changed by rounding.\<close>

lemma fl_on_grid:
  assumes "x = real_of_int m * pow2 (e - 52)" "expo x = e"
  shows "fl x = x"
proof -
  have "x / ulp x = real_of_int m" using assms by (simp add: ulp_def)
  then show ?thesis using assms by (simp add: fl_def ulp_def)
qed

lemma fl_idem: 
  assumes "\<bar>x\<bar> < pow2 1024"
  shows "fl (fl x) = fl x"
proof -
  define e where "e = expo x"
  define m where "m = rne (x / ulp x)"
  have flx: "fl x = real_of_int m * pow2 (e - 52)" by (simp add: fl_def m_def ulp_def e_def)
  have absfl: "\<bar>fl x\<bar> = real_of_int \<bar>m\<bar> * pow2 (e - 52)"
    by (simp add: flx abs_mult)
  have e_le: "e \<le> 1023" using expo_less [OF assms] by (simp add: e_def)
  have e_ge: "- 1022 \<le> e" using expo_range [of x] by (simp add: e_def)
  have up: "\<bar>x\<bar> < pow2 (e + 1)" using expo_upper [of x] e_le by (simp add: e_def)
  have "\<bar>x\<bar> < 2 ^ 53 * ulp x" using up pow2_split53 [of e] by (simp add: ulp_def e_def)
  then have "\<bar>x\<bar> / ulp x < 2 ^ 53" by (simp add: pos_divide_less_eq)
  then have q: "\<bar>x\<bar> / ulp x < real_of_int (2 ^ 53)" by simp
  have "x / ulp x \<le> \<bar>x\<bar> / ulp x" by (intro divide_right_mono) simp_all
  with q have q1: "x / ulp x \<le> real_of_int (2 ^ 53)" by linarith
  have "(- \<bar>x\<bar>) / ulp x \<le> x / ulp x" by (intro divide_right_mono) simp_all
  with q have q2: "real_of_int (- (2 ^ 53)) \<le> x / ulp x" by simp
  have m_le: "m \<le> 2 ^ 53" unfolding m_def using q1 by (rule rne_le)
  have m_ge: "- (2 ^ 53) \<le> m" unfolding m_def using q2 by (rule rne_ge)
  consider (top) "\<bar>m\<bar> = 2 ^ 53" | (sub) "e = - 1022" "\<bar>m\<bar> < 2 ^ 53" 
    | (norm) "- 1022 < e" "\<bar>m\<bar> < 2 ^ 53"
    using m_le m_ge e_ge by linarith
  then have "fl (fl x) = fl x"
  proof cases
    case top
    then have "\<bar>fl x\<bar> = 2 ^ 53 * pow2 (e - 52)"
      by (simp add: absfl)
    then have a: "\<bar>fl x\<bar> = pow2 (e + 1)" by (simp only: pow2_split53)
    have "pow2 (e + 1) < pow2 (e + 1 + 1)" by (rule pow2_strict_mono) simp
    have p: "pow2 (e - 51) = 2 * pow2 (e - 52)" using pow2_Suc [of "e - 52"] by simp
    from top have "m = 2 ^ 53 \<or> m = - (2 ^ 53)" by linarith
    then have "real_of_int m = 2 * real_of_int (m div 2)" by auto
    then have grid: "fl x = real_of_int (m div 2) * pow2 (e + 1 - 52)"
      by (simp add: flx p)
    show ?thesis
    proof (cases "e = 1023")
      case False
      with e_le have "e + 1 \<le> 1023" by simp
      have ex: "expo (fl x) = e + 1"
        by (rule expo_unique) (use a \<open>pow2 (e + 1) < pow2 (e + 1 + 1)\<close> e_ge \<open>e + 1 \<le> 1023\<close> in simp_all)
      from grid show ?thesis using ex by (rule fl_on_grid)
    next
      case True
      have one: "1 \<le> \<bar>fl x\<bar>" using a True by (simp add: pow2_def)
      have ge1: "1 \<le> pow2 1024" using pow2_mono [of 0 1024] by simp
      note b = expo_up_bounds [OF ge1, of 1024]
      have "\<not> expo_up 1024 (pow2 1024) < 1024"
      proof
        assume lt: "expo_up 1024 (pow2 1024) < 1024"
        with b have "pow2 1024 < pow2 (expo_up 1024 (pow2 1024) + 1)" by simp
        moreover have "pow2 (expo_up 1024 (pow2 1024) + 1) \<le> pow2 1024"
          by (rule pow2_mono) (use lt in simp)
        ultimately show False by simp
      qed
      with b have "expo_up 1024 (pow2 1024) = 1024" by simp
      then have ex: "expo (fl x) = e + 1" using one a True by (simp add: expo_def)
      from grid show ?thesis using ex by (rule fl_on_grid)
    qed
  next
    case sub
    have "\<bar>fl x\<bar> = real_of_int \<bar>m\<bar> * pow2 (e - 52)" by (rule absfl)
    also have "\<dots> < 2 ^ 53 * pow2 (e - 52)" using sub(2) by (intro mult_strict_right_mono) auto
    also have "\<dots> = pow2 (e + 1)" by (simp only: pow2_split53)
    finally have "\<bar>fl x\<bar> < pow2 (- 1021)" using sub(1) by simp
    then have "expo (fl x) = e" using sub(1) by (simp add: expo_subnormal)
    with flx show ?thesis by (rule fl_on_grid)
  next
    case norm
    have lo: "pow2 e \<le> \<bar>x\<bar>" using expo_lower [of x] norm(1) by (simp add: e_def)
    have "2 ^ 52 * ulp x \<le> \<bar>x\<bar>" using lo pow2_split52 [of e] by (simp add: ulp_def e_def)
    then have "2 ^ 52 \<le> \<bar>x\<bar> / ulp x" by (simp add: pos_le_divide_eq)
    then have "real_of_int (2 ^ 52) \<le> x / ulp x \<or> x / ulp x \<le> real_of_int (- (2 ^ 52))"
      by (cases "0 \<le> x") (simp_all add: abs_if)
    then have "2 ^ 52 \<le> m \<or> m \<le> - (2 ^ 52)"
      unfolding m_def using rne_ge [of "2 ^ 52" "x / ulp x"] rne_le [of "x / ulp x" "- (2 ^ 52)"]
      by blast
    then have "2 ^ 52 \<le> \<bar>m\<bar>" by linarith
    then have "real_of_int (2 ^ 52) \<le> real_of_int \<bar>m\<bar>" by (simp only: of_int_le_iff)
    then have "2 ^ 52 * pow2 (e - 52) \<le> real_of_int \<bar>m\<bar> * pow2 (e - 52)"
      by (intro mult_right_mono) auto
    then have l: "pow2 e \<le> \<bar>fl x\<bar>" using pow2_split52 [of e] by (simp add: absfl)
    have "\<bar>fl x\<bar> = real_of_int \<bar>m\<bar> * pow2 (e - 52)" by (rule absfl)
    also have "\<dots> < 2 ^ 53 * pow2 (e - 52)" using norm(2) by (intro mult_strict_right_mono) auto
    also have "\<dots> = pow2 (e + 1)" by (simp only: pow2_split53)
    finally have u: "\<bar>fl x\<bar> < pow2 (e + 1)" .
    have "expo (fl x) = e" using l u e_ge e_le by (rule expo_unique)
    with flx show ?thesis by (rule fl_on_grid)
  qed
  then show ?thesis .
qed

lemma fl_error_4:
  assumes "\<bar>x\<bar> < 4"
  shows "\<bar>fl x - x\<bar> \<le> 1 / 2 ^ 52"
proof -
  have "\<bar>x\<bar> < pow2 2" using assms by (simp add: pow2_def)
  from fl_error [OF this] show ?thesis by (simp add: pow2_def)
qed

lemma fl_error_8:
  assumes "\<bar>x\<bar> < 8"
  shows "\<bar>fl x - x\<bar> \<le> 1 / 2 ^ 51"
proof -
  have "\<bar>x\<bar> < pow2 3" using assms by (simp add: pow2_def)
  from fl_error [OF this] show ?thesis by (simp add: pow2_def)
qed

section \<open>The ease function in double arithmetic\<close>

lemma easeD_error:
  assumes "0 \<le> p" "p \<le> 1"
  shows "\<bar>easeD p - p * p * (3 - 2 * p)\<bar> \<le> 9 / 2 ^ 52"
proof -
  define d :: real where "d = 1 / 2 ^ 52"
  define t1 where "t1 = fl (2 * p)"
  define t2 where "t2 = fl (3 - t1)"
  define q where "q = fl (p * p)"
  have d: "0 < d" "d \<le> 1 / 4" by (simp_all add: d_def)
  have e1: "\<bar>t1 - 2 * p\<bar> \<le> d"
    unfolding t1_def d_def by (rule fl_error_4) (use assms in simp)
  then have "\<bar>3 - t1\<bar> < 4" using assms d by linarith
  then have e2: "\<bar>t2 - (3 - t1)\<bar> \<le> d"
    unfolding t2_def d_def by (rule fl_error_4)
  have pp: "0 \<le> p * p" "p * p \<le> 1" using assms by (simp_all add: mult_le_one)
  then have e3: "\<bar>q - p * p\<bar> \<le> d"
    unfolding q_def d_def by (intro fl_error_4) simp
  have q2: "\<bar>q\<bar> \<le> 2" using e3 pp d by linarith
  have t2d: "\<bar>t2 - (3 - 2 * p)\<bar> \<le> 2 * d" using e1 e2 by linarith
  have t24: "\<bar>t2\<bar> \<le> 7 / 2" using t2d assms d by linarith
  have "\<bar>q * t2\<bar> \<le> 2 * (7 / 2)"
    unfolding abs_mult using q2 t24 by (intro mult_mono) simp_all
  then have "\<bar>q * t2\<bar> < 8" by simp
  then have e4: "\<bar>fl (q * t2) - q * t2\<bar> \<le> 2 * d"
    using fl_error_8 [of "q * t2"] by (simp add: d_def)
  have a: "\<bar>q * (t2 - (3 - 2 * p))\<bar> \<le> 2 * (2 * d)"
    unfolding abs_mult using q2 t2d by (intro mult_mono) simp_all
  have "\<bar>3 - 2 * p\<bar> \<le> 3" using assms by simp
  then have b: "\<bar>(3 - 2 * p) * (q - p * p)\<bar> \<le> 3 * d"
    unfolding abs_mult using e3 by (intro mult_mono) simp_all
  have "q * t2 - p * p * (3 - 2 * p) = q * (t2 - (3 - 2 * p)) + (3 - 2 * p) * (q - p * p)"
    by (simp add: algebra_simps)
  then have "\<bar>q * t2 - p * p * (3 - 2 * p)\<bar> \<le> 7 * d" using a b by linarith
  then have "\<bar>fl (q * t2) - p * p * (3 - 2 * p)\<bar> \<le> 9 * d" using e4 by linarith
  moreover have "easeD p = fl (q * t2)"
    by (simp add: easeD_def fmul_def fsub_def q_def t2_def t1_def)
  ultimately show ?thesis by (simp add: d_def)
qed


text \<open>
  Two neighbouring doubles below \<open>1\<close>, \<open>0.9577312039639913\<close> and
  \<open>0.9577312039639914\<close>: the ease of the larger is one unit in the last place below
  the ease of the smaller.
\<close>

theorem easeD_monotone_counterexample:
  "fl (8626475786586655 / 2 ^ 53) = 8626475786586655 / 2 ^ 53 \<and>
   fl (8626475786586656 / 2 ^ 53) = 8626475786586656 / 2 ^ 53 \<and>
   (0::real) \<le> 8626475786586655 / 2 ^ 53 \<and>
   (8626475786586655 / 2 ^ 53 :: real) \<le> 8626475786586656 / 2 ^ 53 \<and>
   (8626475786586656 / 2 ^ 53 :: real) \<le> 1 \<and>
   easeD (8626475786586655 / 2 ^ 53) = 8960281526896688 / 2 ^ 53 \<and>
   easeD (8626475786586656 / 2 ^ 53) = 8960281526896687 / 2 ^ 53 \<and>
   \<not> easeD (8626475786586655 / 2 ^ 53) \<le> easeD (8626475786586656 / 2 ^ 53)"
  by (simp add: easeD_def fl_eval)

text \<open>
  C2, amended. The ease used for all blends is \<open>p * p * (3 - 2 * p)\<close> in double
  arithmetic. It is exactly \<open>0\<close> at \<open>0\<close>, \<open>1\<close> at \<open>1\<close> and \<open>1/2\<close> at \<open>1/2\<close>; between
  \<open>0\<close> and \<open>1\<close> it is within \<open>9 / 2^52\<close> of the polynomial \<open>p^2 (3 - 2 p)\<close>, and it is
  non-decreasing up to that rounding: for \<open>0 \<le> a \<le> b \<le> 1\<close> the ease of \<open>a\<close> exceeds
  the ease of \<open>b\<close> by at most \<open>2^-47\<close>.
\<close>

theorem easeD_smoothstep:
  "easeD p = fmul (fmul p p) (fsub 3 (fmul 2 p)) \<and>
   easeD 0 = 0 \<and> easeD 1 = 1 \<and> easeD (1/2) = 1/2 \<and>
   (\<forall>q. 0 \<le> q \<and> q \<le> 1 \<longrightarrow> \<bar>easeD q - q\<^sup>2 * (3 - 2 * q)\<bar> \<le> 9 / 2 ^ 52) \<and>
   (\<forall>a b. 0 \<le> a \<and> a \<le> b \<and> b \<le> 1 \<longrightarrow> easeD a \<le> easeD b + 1 / 2 ^ 47)"
proof -
  have vals: "easeD 0 = 0" "easeD 1 = 1" "easeD (1/2) = 1/2"
    by (simp_all add: easeD_def fl_eval)
  have err: "\<bar>easeD q - q\<^sup>2 * (3 - 2 * q)\<bar> \<le> 9 / 2 ^ 52" if "0 \<le> q" "q \<le> 1" for q
    using easeD_error [OF that] by (simp add: power2_eq_square)
  have mono: "easeD a \<le> easeD b + 1 / 2 ^ 47" if "0 \<le> a" "a \<le> b" "b \<le> 1" for a b
  proof -
    have "\<bar>easeD a - ease a\<bar> \<le> 9 / 2 ^ 52"
      using easeD_error [of a] that by (simp add: ease_def)
    moreover have "\<bar>easeD b - ease b\<bar> \<le> 9 / 2 ^ 52"
      using easeD_error [of b] that by (simp add: ease_def)
    moreover have "ease a \<le> ease b" using that by (rule ease_exact_mono)
    ultimately have "easeD a \<le> easeD b + 18 / 2 ^ 52" by linarith
    then show ?thesis by simp
  qed
  from vals err mono show ?thesis by (simp add: easeD_def)
qed

theorem easeD_smoothstep_witness:
  "easeD (1/4) = 5/32 \<and> easeD (3/4) = 27/32 \<and> easeD (1/4) \<le> easeD (3/4) + 1 / 2 ^ 47"
proof -
  have "easeD (1/4) \<le> easeD (3/4) + 1 / 2 ^ 47"
    using easeD_smoothstep [of 0] by simp
  moreover have "easeD (1/4) = 5/32" "easeD (3/4) = 27/32"
    by (simp_all add: easeD_def fl_eval)
  ultimately show ?thesis by simp
qed

section \<open>Damping in double arithmetic\<close>

lemma fl_one [simp]: "fl 1 = 1"
  by (simp add: fl_eval)

lemma fl_minus_one [simp]: "fl (- 1) = - 1"
  by (simp add: fl_eval)

lemma fl_error_le1:
  assumes "\<bar>x\<bar> \<le> 1"
  shows "\<bar>fl x - x\<bar> \<le> 1 / 2 ^ 54"
proof (cases "\<bar>x\<bar> < 1")
  case True
  then have "\<bar>x\<bar> < pow2 0" by simp
  from fl_error [OF this] show ?thesis by (simp add: pow2_def)
next
  case False
  with assms have "x = 1 \<or> x = - 1" by linarith
  then show ?thesis by auto
qed

lemma fl_error_2:
  assumes "\<bar>x\<bar> < 2"
  shows "\<bar>fl x - x\<bar> \<le> 1 / 2 ^ 53"
proof -
  have "\<bar>x\<bar> < pow2 1" using assms by (simp add: pow2_def)
  from fl_error [OF this] show ?thesis by (simp add: pow2_def)
qed

lemma fl_le_one:
  assumes "x \<le> 1 + 1 / 2 ^ 53"
  shows "fl x \<le> 1"
proof -
  consider "x \<le> 0" | "0 < x" "x < 1" | "1 \<le> x" by linarith
  then show ?thesis
  proof cases
    case 1
    then show ?thesis using fl_nonpos [of x] by simp
  next
    case 2
    then have ax: "\<bar>x\<bar> < pow2 0" by simp
    from expo_less [OF ax] have e: "expo x + 1 \<le> 0" by simp
    then have "expo x < 1024" by simp
    from expo_upper [OF this] have "\<bar>x\<bar> < pow2 (expo x + 1)" .
    then have "x < 2 ^ 53 * ulp x" using 2 pow2_split53 [of "expo x"] by (simp add: ulp_def)
    then have "x / ulp x \<le> real_of_int (2 ^ 53)" by (simp add: pos_divide_le_eq)
    then have "rne (x / ulp x) \<le> 2 ^ 53" by (rule rne_le)
    then have "real_of_int (rne (x / ulp x)) \<le> real_of_int (2 ^ 53)" by (simp only: of_int_le_iff)
    then have "real_of_int (rne (x / ulp x)) \<le> 2 ^ 53" by simp
    then have "fl x \<le> 2 ^ 53 * ulp x" unfolding fl_def by (intro mult_right_mono) simp_all
    also have "\<dots> = pow2 (expo x + 1)" using pow2_split53 [of "expo x"] by (simp add: ulp_def)
    also have "\<dots> \<le> pow2 0" using e by (rule pow2_mono)
    finally show ?thesis by simp
  next
    case 3
    then have "pow2 0 \<le> \<bar>x\<bar>" by simp
    moreover have "\<bar>x\<bar> < pow2 (0 + 1)" using 3 assms by (simp add: pow2_def)
    ultimately have e: "expo x = 0" by (rule expo_unique) simp_all
    then have u: "ulp x = 1 / 2 ^ 52" by (simp add: ulp_def pow2_def)
    define y where "y = x / ulp x"
    define N :: int where "N = 2 ^ 52"
    have lo: "real_of_int N \<le> y" using 3 by (simp add: u y_def N_def)
    have hi: "y \<le> real_of_int N + 1 / 2" using assms by (simp add: u y_def N_def field_simps)
    from lo hi have f: "\<lfloor>y\<rfloor> = N" by linarith
    have "y - real_of_int \<lfloor>y\<rfloor> \<le> 1 / 2" using hi f by simp
    moreover have "even N" by (simp add: N_def)
    ultimately have "rne y = N" using f by (auto simp: rne_def Let_def)
    then have "rne (x / ulp x) = 2 ^ 52" by (simp add: y_def N_def)
    then show ?thesis by (simp add: fl_def u)
  qed
qed


lemma fl_unit:
  assumes "0 \<le> x" "x \<le> 1"
  shows "0 \<le> fl x" "fl x \<le> 1"
  using assms fl_nonneg [of x] fl_le_one [of x] by simp_all

lemma lerpD_toward_zero:
  assumes t: "0 \<le> t" "t \<le> 1" and x: "0 \<le> x" "x \<le> 1"
  shows "0 \<le> lerpD x 0 t" "lerpD x 0 t \<le> 1"
    "\<bar>lerpD x 0 t - (1 - t) * x\<bar> \<le> 1 / 2 ^ 52"
proof -
  define s where "s = fl (1 - t)"
  have s: "0 \<le> s" "s \<le> 1" using fl_unit [of "1 - t"] t by (simp_all add: s_def)
  have se: "\<bar>s - (1 - t)\<bar> \<le> 1 / 2 ^ 54"
    unfolding s_def by (rule fl_error_le1) (use t in simp)
  have sx: "0 \<le> s * x" "s * x \<le> 1" using s x by (simp_all add: mult_le_one)
  then have small: "\<bar>s * x\<bar> < pow2 1024" 
    using pow2_mono [of 1 1024] by (simp add: pow2_def [of 1])
  have eq: "lerpD x 0 t = fl (s * x)"
    by (simp add: lerpD_def fadd_def fmul_def fsub_def s_def fl_idem [OF small, unfolded s_def])
  show "0 \<le> lerpD x 0 t" "lerpD x 0 t \<le> 1"
    unfolding eq using fl_unit [OF sx] by simp_all
  have a: "\<bar>fl (s * x) - s * x\<bar> \<le> 1 / 2 ^ 54"
    by (rule fl_error_le1) (use sx in simp)
  have "\<bar>(s - (1 - t)) * x\<bar> \<le> (1 / 2 ^ 54) * 1"
    unfolding abs_mult using se x by (intro mult_mono) simp_all
  moreover have "s * x - (1 - t) * x = (s - (1 - t)) * x" by (simp add: algebra_simps)
  ultimately have "\<bar>s * x - (1 - t) * x\<bar> \<le> 1 / 2 ^ 54" by simp
  with a have "\<bar>fl (s * x) - (1 - t) * x\<bar> \<le> 1 / 2 ^ 54 + 1 / 2 ^ 54" by linarith
  then show "\<bar>lerpD x 0 t - (1 - t) * x\<bar> \<le> 1 / 2 ^ 52" unfolding eq by simp
qed

lemma lerpD_toward_one:
  assumes t: "0 \<le> t" "t \<le> 1" "fl t = t" and x: "0 \<le> x" "x \<le> 1"
  shows "0 \<le> lerpD x 1 t" "lerpD x 1 t \<le> 1"
    "\<bar>lerpD x 1 t - 1 - (1 - t) * (x - 1)\<bar> \<le> 1 / 2 ^ 52"
proof -
  define s where "s = fl (1 - t)"
  define a where "a = fl (s * x)"
  have s: "0 \<le> s" "s \<le> 1" using fl_unit [of "1 - t"] t by (simp_all add: s_def)
  have se: "\<bar>s - (1 - t)\<bar> \<le> 1 / 2 ^ 54"
    unfolding s_def by (rule fl_error_le1) (use t in simp)
  have sx: "0 \<le> s * x" "s * x \<le> 1" using s x by (simp_all add: mult_le_one)
  have a: "0 \<le> a" "a \<le> 1" unfolding a_def using fl_unit [OF sx] by simp_all
  have ae: "\<bar>a - s * x\<bar> \<le> 1 / 2 ^ 54"
    unfolding a_def by (rule fl_error_le1) (use sx in simp)
  have eq: "lerpD x 1 t = fl (a + t)"
    by (simp add: lerpD_def fadd_def fmul_def fsub_def s_def a_def t(3))
  have "s * x \<le> s" using s x by (simp add: mult_left_le)
  then have "a + t \<le> 1 + (1 / 2 ^ 54 + 1 / 2 ^ 54)" using ae se by linarith
  then have up: "a + t \<le> 1 + 1 / 2 ^ 53" by simp
  have lo: "0 \<le> a + t" using a t by simp
  show "0 \<le> lerpD x 1 t" unfolding eq using lo by (rule fl_nonneg)
  show "lerpD x 1 t \<le> 1" unfolding eq using up by (rule fl_le_one)
  have "\<bar>a + t\<bar> < 2" using lo up by simp
  then have fe: "\<bar>fl (a + t) - (a + t)\<bar> \<le> 1 / 2 ^ 53" by (rule fl_error_2)
  have "\<bar>(s - (1 - t)) * x\<bar> \<le> (1 / 2 ^ 54) * 1"
    unfolding abs_mult using se x by (intro mult_mono) simp_all
  moreover have "s * x - (1 - t) * x = (s - (1 - t)) * x" by (simp add: algebra_simps)
  ultimately have "\<bar>s * x - (1 - t) * x\<bar> \<le> 1 / 2 ^ 54" by simp
  with ae fe have "\<bar>fl (a + t) - ((1 - t) * x + t)\<bar> \<le> 1 / 2 ^ 54 + 1 / 2 ^ 54 + 1 / 2 ^ 53"
    by linarith
  then have "\<bar>fl (a + t) - ((1 - t) * x + t)\<bar> \<le> 1 / 2 ^ 52" by simp
  moreover have "fl (a + t) - ((1 - t) * x + t) = fl (a + t) - 1 - (1 - t) * (x - 1)"
    by (simp add: algebra_simps)
  ultimately show "\<bar>lerpD x 1 t - 1 - (1 - t) * (x - 1)\<bar> \<le> 1 / 2 ^ 52"
    unfolding eq by (simp only:)
qed

lemma weightD_unit:
  assumes "0 \<le> expD (fmul (- 2.5) dt)" "expD (fmul (- 2.5) dt) \<le> 1"
  shows "0 \<le> weightD expD dt" "weightD expD dt \<le> 1" "fl (weightD expD dt) = weightD expD dt"
proof -
  let ?E = "expD (fmul (- 2.5) dt)"
  have u: "0 \<le> 1 - ?E" "1 - ?E \<le> 1" using assms by simp_all
  show "0 \<le> weightD expD dt" "weightD expD dt \<le> 1"
    unfolding weightD_def fsub_def using fl_unit [OF u] by simp_all
  have "\<bar>1 - ?E\<bar> < pow2 1024" using u pow2_mono [of 1 1024] by (simp add: pow2_def [of 1])
  then show "fl (weightD expD dt) = weightD expD dt"
    unfolding weightD_def fsub_def by (rule fl_idem)
qed

lemma advanceD_step:
  assumes E: "0 \<le> expD (fmul (- 2.5) dt)" "expD (fmul (- 2.5) dt) \<le> 1"
    and x: "0 \<le> x" "x \<le> 1"
  shows "0 \<le> advanceD expD x st dt" "advanceD expD x st dt \<le> 1"
    "\<bar>advanceD expD x st dt - targetProgress st\<bar> \<le>
       (1 - weightD expD dt) * \<bar>x - targetProgress st\<bar> + 1 / 2 ^ 52"
proof -
  note w = weightD_unit [of expD dt, OF E]
  have eq: "advanceD expD x st' dt = lerpD x (targetProgress st') (weightD expD dt)" for st'
    by (simp add: advanceD_def dampD_def weightD_def)
  show "0 \<le> advanceD expD x st dt" "advanceD expD x st dt \<le> 1"
    unfolding eq using lerpD_toward_zero(1,2) [OF w(1,2) x] lerpD_toward_one(1,2) [OF w x]
    by (cases st; simp add: targetProgress_def)+
  show "\<bar>advanceD expD x st dt - targetProgress st\<bar> \<le>
       (1 - weightD expD dt) * \<bar>x - targetProgress st\<bar> + 1 / 2 ^ 52"
  proof (cases st)
    case CHAOS
    define L where "L = lerpD x 0 (weightD expD dt)"
    define k where "k = 1 - weightD expD dt"
    have k: "0 \<le> k" using w by (simp add: k_def)
    have "\<bar>L - k * x\<bar> \<le> 1 / 2 ^ 52"
      using lerpD_toward_zero(3) [OF w(1,2) x] by (simp only: L_def k_def)
    moreover have "\<bar>k * x\<bar> = k * \<bar>x\<bar>" using k by (simp add: abs_mult)
    ultimately have "\<bar>L\<bar> \<le> k * \<bar>x\<bar> + 1 / 2 ^ 52" by linarith
    moreover have "advanceD expD x st dt = L" by (simp add: eq CHAOS targetProgress_def L_def)
    ultimately show ?thesis by (simp add: CHAOS targetProgress_def k_def)
  next
    case FORMED
    define L where "L = lerpD x 1 (weightD expD dt)"
    define k where "k = 1 - weightD expD dt"
    have k: "0 \<le> k" using w by (simp add: k_def)
    have "\<bar>L - 1 - k * (x - 1)\<bar> \<le> 1 / 2 ^ 52"
      using lerpD_toward_one(3) [OF w x] by (simp only: L_def k_def)
    moreover have "\<bar>k * (x - 1)\<bar> = k * \<bar>x - 1\<bar>" using k by (simp add: abs_mult)
    ultimately have "\<bar>L - 1\<bar> \<le> k * \<bar>x - 1\<bar> + 1 / 2 ^ 52" by linarith
    moreover have "advanceD expD x st dt = L" by (simp add: eq FORMED targetProgress_def L_def)
    ultimately show ?thesis by (simp add: FORMED targetProgress_def k_def)
  qed
qed


lemma ticksD_Suc_right:
  "ticksD expD (Suc n) x st dt = advanceD expD (ticksD expD n x st dt) st dt"
  by (induction n arbitrary: x) simp_all

lemma ticksD_unit:
  assumes E: "0 \<le> expD (fmul (- 2.5) dt)" "expD (fmul (- 2.5) dt) \<le> 1"
    and x: "0 \<le> x" "x \<le> 1"
  shows "0 \<le> ticksD expD n x st dt \<and> ticksD expD n x st dt \<le> 1"
proof (induction n)
  case 0
  then show ?case using x by simp
next
  case (Suc n)
  then show ?case
    unfolding ticksD_Suc_right using advanceD_step(1,2) [of expD dt, OF E] by blast
qed

lemma ticksD_bound:
  assumes E: "0 \<le> expD (fmul (- 2.5) dt)" "expD (fmul (- 2.5) dt) \<le> 1"
    and x: "0 \<le> x" "x \<le> 1" and w: "0 < weightD expD dt"
  shows "\<bar>ticksD expD n x st dt - targetProgress st\<bar> \<le>
           (1 - weightD expD dt) ^ n * \<bar>x - targetProgress st\<bar> + (1 / 2 ^ 52) / weightD expD dt"
proof (induction n)
  case 0
  have "0 \<le> (1 / 2 ^ 52) / weightD expD dt" using w by simp
  then show ?case by simp
next
  case (Suc n)
  define k where "k = 1 - weightD expD dt"
  define c :: real where "c = 1 / 2 ^ 52"
  define d where "d = \<bar>ticksD expD n x st dt - targetProgress st\<bar>"
  define d0 where "d0 = \<bar>x - targetProgress st\<bar>"
  have k: "0 \<le> k" using weightD_unit(2) [of expD dt, OF E] by (simp add: k_def)
  have IH: "d \<le> k ^ n * d0 + c / weightD expD dt"
    using Suc by (simp only: d_def d0_def k_def c_def)
  note u = ticksD_unit [of expD dt, OF E x, of n st]
  have "\<bar>ticksD expD (Suc n) x st dt - targetProgress st\<bar> \<le> k * d + c"
    unfolding ticksD_Suc_right k_def d_def c_def
    using advanceD_step(3) [of expD dt, OF E] u by blast
  also have "k * d \<le> k * (k ^ n * d0 + c / weightD expD dt)"
    using IH k by (rule mult_left_mono)
  also have "k * (k ^ n * d0 + c / weightD expD dt) + c = k ^ Suc n * d0 + c / weightD expD dt"
    using w by (simp add: k_def field_simps)
  finally show ?case by (simp only: d0_def k_def c_def add_mono)
qed

lemma weightD_lower:
  assumes E: "0 \<le> expD (fmul (- 2.5) dt)" "expD (fmul (- 2.5) dt) \<le> 1"
  shows "1 - expD (fmul (- 2.5) dt) - 1 / 2 ^ 54 \<le> weightD expD dt"
proof -
  have "\<bar>fl (1 - expD (fmul (- 2.5) dt)) - (1 - expD (fmul (- 2.5) dt))\<bar> \<le> 1 / 2 ^ 54"
    by (rule fl_error_le1) (use E in simp)
  then show ?thesis unfolding weightD_def fsub_def by linarith
qed

lemma pow_97: "((97::real) / 100) ^ 300 \<le> 1 / 1000"
proof -
  have "((97::real) / 100) ^ 10 \<le> 3 / 4" by (simp add: power_divide)
  then have "(((97::real) / 100) ^ 10) ^ 30 \<le> (3 / 4) ^ 30" by (rule power_mono) simp
  also have "((3::real) / 4) ^ 30 \<le> 1 / 1000" by (simp add: power_divide)
  finally show ?thesis by (simp add: power_mult [symmetric])
qed

text \<open>
  At rest in the dispersed mode (progress \<open>0\<close>, target \<open>0\<close>) a frame leaves the progress
  where it is: it does not move strictly closer to the target. This is so in exact
  arithmetic and in doubles, whatever \<open>Math.exp\<close> returns.
\<close>

theorem damping_strict_counterexample:
  "advance 0 CHAOS (1/60) = 0 \<and>
   \<not> \<bar>advance 0 CHAOS (1/60) - targetProgress CHAOS\<bar> < \<bar>0 - targetProgress CHAOS\<bar> \<and>
   advanceD (\<lambda>z. 8639610563228846 / 2 ^ 53) 0 CHAOS (1/60) = 0 \<and>
   \<not> \<bar>advanceD (\<lambda>z. 8639610563228846 / 2 ^ 53) 0 CHAOS (1/60) - targetProgress CHAOS\<bar>
       < \<bar>0 - targetProgress CHAOS\<bar>"
  by (simp add: advance_def damp_def lerp_def targetProgress_def advanceD_def dampD_def
      lerpD_def fmul_def fadd_def)

text \<open>
  C3, amended. Let \<open>w\<close> be the blend weight \<open>1 - Math.exp (- 2.5 * delta)\<close> as computed
  in doubles, for a \<open>delta\<close> for which \<open>Math.exp\<close> returns a value between \<open>0\<close> and \<open>1\<close>.
  From a progress between \<open>0\<close> and \<open>1\<close>, one application of the damping keeps the
  progress between \<open>0\<close> and \<open>1\<close>, so it never passes the target, and leaves it within
  \<open>(1 - w)\<close> times its former distance to the target plus \<open>2^-52\<close>; the progress moves
  strictly closer as long as \<open>w\<close> times its distance exceeds \<open>2^-52\<close>. When
  \<open>Math.exp\<close> returns at most \<open>1 - 2^-20\<close>, the distance is below \<open>1e-4\<close> from a number
  of ticks on that does not depend on the starting progress. When it returns at most
  \<open>0.96\<close>, as for \<open>delta = 1/60\<close>, 300 ticks toward target \<open>1\<close> leave the progress
  above \<open>0.99\<close>.
\<close>

theorem dampingD_approaches_target:
  assumes "0 \<le> expD (fmul (- 2.5) dt)" "expD (fmul (- 2.5) dt) \<le> 1"
    and "0 \<le> p" "p \<le> 1"
  shows "0 \<le> advanceD expD p st dt \<and> advanceD expD p st dt \<le> 1 \<and>
         \<bar>advanceD expD p st dt - targetProgress st\<bar> \<le>
           (1 - weightD expD dt) * \<bar>p - targetProgress st\<bar> + 1 / 2 ^ 52 \<and>
         (1 / 2 ^ 52 < weightD expD dt * \<bar>p - targetProgress st\<bar> \<longrightarrow>
            \<bar>advanceD expD p st dt - targetProgress st\<bar> < \<bar>p - targetProgress st\<bar>) \<and>
         (expD (fmul (- 2.5) dt) \<le> 1 - 1 / 2 ^ 20 \<longrightarrow>
            (\<exists>N. \<forall>q n. 0 \<le> q \<and> q \<le> 1 \<and> N \<le> n \<longrightarrow>
               \<bar>ticksD expD n q st dt - targetProgress st\<bar> < 1 / 10000)) \<and>
         (expD (fmul (- 2.5) dt) \<le> 24 / 25 \<longrightarrow> 99 / 100 < ticksD expD 300 p FORMED dt)"
proof -
  note E = assms(1,2) and x = assms(3,4)
  note step = advanceD_step [of expD dt, OF E x, of st]
  note wu = weightD_unit [of expD dt, OF E]
  define w where "w = weightD expD dt"
  define T where "T = targetProgress st"
  have strict: "\<bar>advanceD expD p st dt - T\<bar> < \<bar>p - T\<bar>" if "1 / 2 ^ 52 < w * \<bar>p - T\<bar>"
  proof -
    have "(1 - w) * \<bar>p - T\<bar> = \<bar>p - T\<bar> - w * \<bar>p - T\<bar>" by (simp add: algebra_simps)
    with step(3) that show ?thesis unfolding w_def T_def by linarith
  qed
  have conv: "\<exists>N. \<forall>q n. 0 \<le> q \<and> q \<le> 1 \<and> N \<le> n \<longrightarrow> \<bar>ticksD expD n q st dt - T\<bar> < 1 / 10000"
    if small: "expD (fmul (- 2.5) dt) \<le> 1 - 1 / 2 ^ 20"
  proof -
    have wl: "1 / 2 ^ 21 \<le> w" using weightD_lower [of expD dt, OF E] small unfolding w_def by simp
    then have wpos: "0 < w" by (simp add: less_le_trans [of 0 "1 / 2 ^ 21"])
    have k: "0 \<le> 1 - w" "1 - w < 1" using wu wpos by (simp_all add: w_def)
    from real_arch_pow_inv [of "1 / 20000" "1 - w"] k obtain N where N: "(1 - w) ^ N < 1 / 20000"
      by auto
    have noise: "(1 / 2 ^ 52) / w \<le> 1 / 20000"
    proof -
      have "(1 / 2 ^ 52) / w \<le> (1 / 2 ^ 52) / (1 / 2 ^ 21)"
        using wl by (intro divide_left_mono) simp_all
      then show ?thesis by simp
    qed
    have "\<bar>ticksD expD n q st dt - T\<bar> < 1 / 10000" if q: "0 \<le> q" "q \<le> 1" and n: "N \<le> n" for q n
    proof -
      have "(1 - w) ^ n \<le> (1 - w) ^ N" using n k by (intro power_decreasing) simp_all
      then have kn: "(1 - w) ^ n < 1 / 20000" using N by simp
      have d0: "\<bar>q - T\<bar> \<le> 1" using q by (cases st) (simp_all add: T_def targetProgress_def)
      have "(1 - w) ^ n * \<bar>q - T\<bar> \<le> (1 - w) ^ n * 1"
        using d0 k by (intro mult_left_mono) simp_all
      then have a: "(1 - w) ^ n * \<bar>q - T\<bar> < 1 / 20000" using kn by simp
      have "\<bar>ticksD expD n q st dt - T\<bar> \<le> (1 - w) ^ n * \<bar>q - T\<bar> + (1 / 2 ^ 52) / w"
        unfolding w_def T_def using wpos by (intro ticksD_bound E q) (simp add: w_def)
      with a noise show ?thesis by linarith
    qed
    then show ?thesis by blast
  qed
  have five: "99 / 100 < ticksD expD 300 p FORMED dt" if small: "expD (fmul (- 2.5) dt) \<le> 24 / 25"
  proof -
    have wl: "3 / 100 \<le> w" using weightD_lower [of expD dt, OF E] small unfolding w_def by simp
    then have wpos: "0 < w" by simp
    have k: "0 \<le> 1 - w" "1 - w \<le> 97 / 100" using wu wl by (simp_all add: w_def)
    have "(1 - w) ^ 300 \<le> (97 / 100) ^ 300" using k(2) k(1) by (rule power_mono)
    then have kn: "(1 - w) ^ 300 \<le> 1 / 1000" using pow_97 by simp
    have noise: "(1 / 2 ^ 52) / w \<le> 1 / 1000"
    proof -
      have "(1 / 2 ^ 52) / w \<le> (1 / 2 ^ 52) / (3 / 100)"
        using wl by (intro divide_left_mono) simp_all
      then show ?thesis by simp
    qed
    have d0: "\<bar>p - 1\<bar> \<le> 1" using x by simp
    have "(1 - w) ^ 300 * \<bar>p - 1\<bar> \<le> (1 - w) ^ 300 * 1"
      using d0 k by (intro mult_left_mono) simp_all
    then have a: "(1 - w) ^ 300 * \<bar>p - 1\<bar> \<le> 1 / 1000" using kn by simp
    have "\<bar>ticksD expD 300 p FORMED dt - targetProgress FORMED\<bar> \<le>
        (1 - w) ^ 300 * \<bar>p - targetProgress FORMED\<bar> + (1 / 2 ^ 52) / w"
      unfolding w_def using wpos by (intro ticksD_bound E x) (simp add: w_def)
    then have "\<bar>ticksD expD 300 p FORMED dt - 1\<bar> \<le> (1 - w) ^ 300 * \<bar>p - 1\<bar> + (1 / 2 ^ 52) / w"
      by (simp add: targetProgress_def)
    with a noise show ?thesis by linarith
  qed
  from step strict conv five show ?thesis unfolding w_def T_def by blast
qed

text \<open>
  \<open>Math.exp (- 2.5 / 60)\<close> is \<open>0.9591894571091382\<close>, the double
  \<open>8639610563228846 / 2^53\<close>.
\<close>

theorem dampingD_approaches_target_witness:
  "0 \<le> advanceD (\<lambda>z. 8639610563228846 / 2 ^ 53) (1/2) FORMED (1/60) \<and>
   advanceD (\<lambda>z. 8639610563228846 / 2 ^ 53) (1/2) FORMED (1/60) \<le> 1 \<and>
   99 / 100 < ticksD (\<lambda>z. 8639610563228846 / 2 ^ 53) 300 (1/2) FORMED (1/60)"
  using dampingD_approaches_target [of "\<lambda>z. 8639610563228846 / 2 ^ 53" "1/60" "1/2" FORMED]
  by simp


end
